theory Spec2Isabelle
  imports Complex_Main "HOL-Library.AList"
begin

section \<open>Data model of glb\_renderer.go\<close>

text \<open>
  Go's \<open>float32\<close> (and the \<open>float64\<close> values the code converts from) are modelled as
  real numbers: rounding, infinities and NaN are outside the model. Go's \<open>int\<close> is
  modelled as \<open>int\<close>; indices that the code uses to subscript a slice are checked
  against the slice's length, and an index out of range is the run-time panic of Go.
\<close>

type_synonym float32 = real

type_synonym Vec3 = "float32 \<times> float32 \<times> float32"

type_synonym Vec4 = "float32 \<times> float32 \<times> float32 \<times> float32"

text \<open>\<open>mgl32.Mat4\<close> is \<open>[16]float32\<close> in column-major order: four columns of four.\<close>

type_synonym Mat4 = "Vec4 \<times> Vec4 \<times> Vec4 \<times> Vec4"

record Quat =
  W :: float32
  V :: Vec3

text \<open>
  The run-time panics of Go that the code can raise: an index out of range, a slice
  expression out of bounds, a \<open>nil\<close> pointer dereferenced, and \<open>make\<close> called with a
  negative length.
\<close>

datatype panic =
  IndexOutOfRange
  | SliceBoundsOutOfRange
  | NilPointerDereference
  | MakeSliceLenOutOfRange

record Mesh =
  IndexCount :: int
  HasIndices :: bool
  VertexCount :: int
  MeshNodeIndex :: int
  SkinIndex :: int

record Skin =
  Joints :: "int list"
  InverseBindMatrices :: "Mat4 list"

record AnimationChannel =
  NodeIndex :: int
  Path :: string
  Timestamps :: "float32 list"
  Values :: "float32 list"

record Animation =
  Name :: string
  Channels :: "AnimationChannel list"
  Duration :: float32

record NodeTransform =
  Translation :: Vec3
  Rotation :: Quat
  Scale :: Vec3

text \<open>
  The calls the renderer issues to OpenGL, as far as the properties below need them:
  the texture upload of \<open>UpdateTexture\<close>, and the bone-matrix uniforms and draw calls
  of \<open>Render\<close>. \<open>TexSubImage2D\<close> carries the pixel buffer the pointer argument
  refers to. A byte is kept as the natural number below 256 that it holds.
\<close>

type_synonym byte = nat

datatype gl_call =
  BindTexture
  | TexImage2D int int
  | TexSubImage2D int int "byte list"
  | UniformBoneMatrix nat Mat4
  | DrawElements int
  | DrawArrays int

text \<open>
  The renderer. \<open>Animations\<close> is a Go map from names to animations, kept as an
  association list with distinct keys; the animations are never changed after loading,
  so \<open>CurrentAnim\<close> (a pointer into the map, \<open>nil\<close> when stopped) is the animation
  itself. \<open>AnimStartTime\<close> is a point of time in seconds.
\<close>

record GLBRenderer =
  Meshes :: "Mesh list"
  TextureWidth :: int
  TextureHeight :: int
  ModelRotation :: float32
  Animations :: "(string \<times> Animation) list"
  NodeTransforms :: "NodeTransform list"
  BaseTransforms :: "NodeTransform list"
  CurrentAnim :: "Animation option"
  AnimStartTime :: real
  AnimLoop :: bool
  Skins :: "Skin list"
  NodeParents :: "int list"
  BoneMatrices :: "Mat4 list"

section \<open>Animation engine\<close>

subsection \<open>Resetting the current transforms\<close>

text \<open>
  The loop \<open>for i := range r.NodeTransforms { r.NodeTransforms[i] = r.BaseTransforms[i] }\<close>
  of \<open>StopAnimation\<close> and \<open>UpdateAnimation\<close>, over the indices it visits.
\<close>

fun resetLoop :: "nat list \<Rightarrow> NodeTransform list \<Rightarrow> NodeTransform list \<Rightarrow> panic + NodeTransform list" where
  "resetLoop [] nts base = Inr nts"
| "resetLoop (i # js) nts base =
     (if i < length base then resetLoop js (nts[i := base ! i]) base
      else Inl IndexOutOfRange)"

definition resetToBase :: "GLBRenderer \<Rightarrow> panic + GLBRenderer" where
  "resetToBase r =
     (case resetLoop [0..<length (NodeTransforms r)] (NodeTransforms r) (BaseTransforms r) of
        Inl e \<Rightarrow> Inl e
      | Inr nts \<Rightarrow> Inr (r\<lparr>NodeTransforms := nts\<rparr>))"

subsection \<open>PlayAnimation and StopAnimation\<close>

text \<open>
  The error \<open>PlayAnimation\<close> returns: the name asked for and the names of the map
  (the Go code lists them in the map's iteration order, which is not fixed).
\<close>

datatype play_error = NotFound string "string set"

definition PlayAnimation :: "GLBRenderer \<Rightarrow> string \<Rightarrow> bool \<Rightarrow> real \<Rightarrow> GLBRenderer \<times> play_error option" where
  "PlayAnimation r name loop now =
     (case map_of (Animations r) name of
        None \<Rightarrow> (r, Some (NotFound name (set (map fst (Animations r)))))
      | Some anim \<Rightarrow>
          (r\<lparr>CurrentAnim := Some anim, AnimStartTime := now, AnimLoop := loop\<rparr>, None))"

definition StopAnimation :: "GLBRenderer \<Rightarrow> panic + GLBRenderer" where
  "StopAnimation r = resetToBase (r\<lparr>CurrentAnim := None\<rparr>)"

subsection \<open>Keyframe interpolation\<close>

text \<open>
  \<open>sort.Search(n, f)\<close> of Go's standard library: binary search for the smallest index
  in \<open>[0, n)\<close> at which \<open>f\<close> holds, \<open>n\<close> when there is none.
\<close>

function SearchLoop :: "(nat \<Rightarrow> bool) \<Rightarrow> nat \<Rightarrow> nat \<Rightarrow> nat" where
  "SearchLoop f i j =
     (if i < j then
        (let h = (i + j) div 2 in
         if \<not> f h then SearchLoop f (h + 1) j else SearchLoop f i h)
      else i)"
  by pat_completeness auto
termination
  by (relation "measure (\<lambda>(f, i, j). j - i)") auto

declare SearchLoop.simps [simp del]

definition Search :: "nat \<Rightarrow> (nat \<Rightarrow> bool) \<Rightarrow> nat" where
  "Search n f = SearchLoop f 0 n"

text \<open>
  A slice expression \<open>xs[a:b]\<close>. The value buffers are allocated by
  \<open>make([]float32, n)\<close> in \<open>readAccessorFloats\<close>, so their capacity is their length.
\<close>

definition slice :: "'a list \<Rightarrow> nat \<Rightarrow> nat \<Rightarrow> panic + 'a list" where
  "slice xs a b =
     (if a \<le> b \<and> b \<le> length xs then Inr (take (b - a) (drop a xs))
      else Inl SliceBoundsOutOfRange)"

definition clamp01 :: "float32 \<Rightarrow> float32" where
  "clamp01 factor =
     (let factor = (if factor < 0 then 0 else factor) in
      if factor > 1 then 1 else factor)"

definition quatAt :: "float32 list \<Rightarrow> nat \<Rightarrow> Quat" where
  "quatAt vs k = \<lparr>W = vs ! (k + 3), V = (vs ! k, vs ! (k + 1), vs ! (k + 2))\<rparr>"

text \<open>
  Lines 697 to 722 of \<open>interpolateKeyframes\<close>: the blend of the samples that start
  at \<open>startIdx0\<close> and \<open>startIdx1\<close> of the value buffer. \<open>mgl32.QuatSlerp\<close> belongs
  to a library outside the repository and is the parameter \<open>slerp\<close>.
\<close>

definition blendKeyframes ::
  "(Quat \<Rightarrow> Quat \<Rightarrow> float32 \<Rightarrow> Quat) \<Rightarrow> AnimationChannel \<Rightarrow> nat \<Rightarrow> nat \<Rightarrow> nat \<Rightarrow> float32 \<Rightarrow> float32 list" where
  "blendKeyframes slerp channel components startIdx0 startIdx1 factor =
     (if Path channel = ''rotation'' then
        (let q0 = quatAt (Values channel) startIdx0;
             q1 = quatAt (Values channel) startIdx1;
             qr = slerp q0 q1 factor
         in [fst (V qr), fst (snd (V qr)), snd (snd (V qr)), W qr])
      else
        map (\<lambda>i. let v0 = Values channel ! (startIdx0 + i);
                      v1 = Values channel ! (startIdx1 + i)
                  in v0 + (v1 - v0) * factor)
          [0..<components])"

text \<open>The component count \<open>interpolateKeyframes\<close> derives from the path.\<close>

definition componentCount :: "AnimationChannel \<Rightarrow> nat" where
  "componentCount channel = (if Path channel = ''rotation'' then 4 else 3)"

text \<open>\<open>interpolateKeyframes\<close>. A \<open>nil\<close> result is the empty list.\<close>

definition interpolateKeyframes ::
  "(Quat \<Rightarrow> Quat \<Rightarrow> float32 \<Rightarrow> Quat) \<Rightarrow> AnimationChannel \<Rightarrow> float32 \<Rightarrow> panic + float32 list" where
  "interpolateKeyframes slerp channel t =
     (if length (Timestamps channel) = 0 then Inr []
      else
        let components = componentCount channel;
            count = length (Timestamps channel);
            idx = Search count (\<lambda>i. Timestamps channel ! i > t)
        in
        if idx = 0 then
          (if components \<le> length (Values channel) then slice (Values channel) 0 components
           else Inr [])
        else if idx = count then
          (let startIdx = (count - 1) * components in
           if startIdx + components \<le> length (Values channel)
           then slice (Values channel) startIdx (startIdx + components)
           else Inr [])
        else
          let keyIdx = idx - 1;
              t0 = Timestamps channel ! keyIdx;
              t1 = Timestamps channel ! (keyIdx + 1);
              factor = clamp01 ((t - t0) / (t1 - t0));
              startIdx0 = keyIdx * components;
              startIdx1 = (keyIdx + 1) * components
          in
          if startIdx1 + components > length (Values channel)
          then slice (Values channel) startIdx0 (startIdx0 + components)
          else Inr (blendKeyframes slerp channel components startIdx0 startIdx1 factor))"

subsection \<open>UpdateAnimation\<close>

text \<open>
  The body of the loop over the channels: a channel whose node index is out of range is
  skipped, the others write the property their path names when the interpolated value is
  long enough.
\<close>

definition applyChannel ::
  "(Quat \<Rightarrow> Quat \<Rightarrow> float32 \<Rightarrow> Quat) \<Rightarrow> AnimationChannel \<Rightarrow> float32 \<Rightarrow>
     NodeTransform list \<Rightarrow> panic + NodeTransform list" where
  "applyChannel slerp channel elapsed nts =
     (if NodeIndex channel < 0 \<or> NodeIndex channel \<ge> int (length nts) then Inr nts
      else
        case interpolateKeyframes slerp channel elapsed of
          Inl e \<Rightarrow> Inl e
        | Inr value \<Rightarrow>
            let n = nat (NodeIndex channel) in
            if Path channel = ''translation'' then
              (if length value \<ge> 3
               then Inr (nts[n := (nts ! n)\<lparr>Translation := (value ! 0, value ! 1, value ! 2)\<rparr>])
               else Inr nts)
            else if Path channel = ''rotation'' then
              (if length value \<ge> 4
               then Inr (nts[n := (nts ! n)\<lparr>Rotation :=
                           \<lparr>W = value ! 3, V = (value ! 0, value ! 1, value ! 2)\<rparr>\<rparr>])
               else Inr nts)
            else if Path channel = ''scale'' then
              (if length value \<ge> 3
               then Inr (nts[n := (nts ! n)\<lparr>Scale := (value ! 0, value ! 1, value ! 2)\<rparr>])
               else Inr nts)
            else Inr nts)"

fun applyChannels ::
  "(Quat \<Rightarrow> Quat \<Rightarrow> float32 \<Rightarrow> Quat) \<Rightarrow> AnimationChannel list \<Rightarrow> float32 \<Rightarrow>
     NodeTransform list \<Rightarrow> panic + NodeTransform list" where
  "applyChannels slerp [] elapsed nts = Inr nts"
| "applyChannels slerp (channel # channels) elapsed nts =
     (case applyChannel slerp channel elapsed nts of
        Inl e \<Rightarrow> Inl e
      | Inr nts' \<Rightarrow> applyChannels slerp channels elapsed nts')"

text \<open>
  \<open>math.Mod(x, y)\<close> on finite values: the remainder of the division truncated towards
  zero, with the sign of \<open>x\<close>.
\<close>

definition fmod :: "real \<Rightarrow> real \<Rightarrow> real" where
  "fmod x y = x - y * real_of_int (if x / y \<ge> 0 then \<lfloor>x / y\<rfloor> else \<lceil>x / y\<rceil>)"

text \<open>
  Lines 605 to 636 of \<open>UpdateAnimation\<close>: reset to the base transforms, then apply
  the channels of the animation at the elapsed time.
\<close>

definition applyAnimation ::
  "(Quat \<Rightarrow> Quat \<Rightarrow> float32 \<Rightarrow> Quat) \<Rightarrow> Animation \<Rightarrow> float32 \<Rightarrow> GLBRenderer \<Rightarrow> panic + GLBRenderer" where
  "applyAnimation slerp anim elapsed r =
     (case resetToBase r of
        Inl e \<Rightarrow> Inl e
      | Inr r1 \<Rightarrow>
          (case applyChannels slerp (Channels anim) elapsed (NodeTransforms r1) of
             Inl e \<Rightarrow> Inl e
           | Inr nts \<Rightarrow> Inr (r1\<lparr>NodeTransforms := nts\<rparr>)))"

text \<open>
  \<open>UpdateAnimation\<close>, called at the time \<open>now\<close>: \<open>elapsed\<close> is
  \<open>time.Since(r.AnimStartTime).Seconds()\<close>.
\<close>

definition UpdateAnimation ::
  "(Quat \<Rightarrow> Quat \<Rightarrow> float32 \<Rightarrow> Quat) \<Rightarrow> GLBRenderer \<Rightarrow> real \<Rightarrow> panic + GLBRenderer" where
  "UpdateAnimation slerp r now =
     (case CurrentAnim r of
        None \<Rightarrow> Inr r
      | Some anim \<Rightarrow>
          let elapsed = now - AnimStartTime r in
          if AnimLoop r \<and> Duration anim > 0
          then applyAnimation slerp anim (fmod elapsed (Duration anim)) r
          else if elapsed > Duration anim
          then Inr (r\<lparr>CurrentAnim := None\<rparr>)
          else applyAnimation slerp anim elapsed r)"

section \<open>Scene graph\<close>

subsection \<open>The matrices of mgl32\<close>

text \<open>
  The operations of the library \<open>github.com/go-gl/mathgl/mgl32\<close> that the renderer
  calls, as the library documents them: the product of two matrices, the identity, the
  translation and scale matrices and the rotation matrix of a quaternion.
\<close>

definition Mul4x1 :: "Mat4 \<Rightarrow> Vec4 \<Rightarrow> Vec4" where
  "Mul4x1 m v =
     (case m of ((m0, m1, m2, m3), (m4, m5, m6, m7), (m8, m9, m10, m11), (m12, m13, m14, m15)) \<Rightarrow>
      case v of (x, y, z, w) \<Rightarrow>
        (m0 * x + m4 * y + m8 * z + m12 * w,
         m1 * x + m5 * y + m9 * z + m13 * w,
         m2 * x + m6 * y + m10 * z + m14 * w,
         m3 * x + m7 * y + m11 * z + m15 * w))"

definition Mul4 :: "Mat4 \<Rightarrow> Mat4 \<Rightarrow> Mat4" where
  "Mul4 m1 m2 =
     (case m2 of (c0, c1, c2, c3) \<Rightarrow> (Mul4x1 m1 c0, Mul4x1 m1 c1, Mul4x1 m1 c2, Mul4x1 m1 c3))"

definition Ident4 :: Mat4 where
  "Ident4 = ((1, 0, 0, 0), (0, 1, 0, 0), (0, 0, 1, 0), (0, 0, 0, 1))"

definition Translate3D :: "float32 \<Rightarrow> float32 \<Rightarrow> float32 \<Rightarrow> Mat4" where
  "Translate3D x y z = ((1, 0, 0, 0), (0, 1, 0, 0), (0, 0, 1, 0), (x, y, z, 1))"

definition Scale3D :: "float32 \<Rightarrow> float32 \<Rightarrow> float32 \<Rightarrow> Mat4" where
  "Scale3D x y z = ((x, 0, 0, 0), (0, y, 0, 0), (0, 0, z, 0), (0, 0, 0, 1))"

definition QuatMat4 :: "Quat \<Rightarrow> Mat4" where
  "QuatMat4 q =
     (let w = W q; x = fst (V q); y = fst (snd (V q)); z = snd (snd (V q)) in
      ((1 - 2 * y * y - 2 * z * z, 2 * x * y + 2 * w * z, 2 * x * z - 2 * w * y, 0),
       (2 * x * y - 2 * w * z, 1 - 2 * x * x - 2 * z * z, 2 * y * z + 2 * w * x, 0),
       (2 * x * z + 2 * w * y, 2 * y * z - 2 * w * x, 1 - 2 * x * x - 2 * y * y, 0),
       (0, 0, 0, 1)))"

definition QuatIdent :: Quat where
  "QuatIdent = \<lparr>W = 1, V = (0, 0, 0)\<rparr>"

subsection \<open>Local and global transforms\<close>

definition getNodeTransformMatrix :: "GLBRenderer \<Rightarrow> int \<Rightarrow> Mat4" where
  "getNodeTransformMatrix r nodeIndex =
     (if nodeIndex < 0 \<or> nodeIndex \<ge> int (length (NodeTransforms r)) then Ident4
      else
        let t = NodeTransforms r ! nat nodeIndex;
            translation = Translate3D (fst (Translation t)) (fst (snd (Translation t)))
                            (snd (snd (Translation t)));
            rotation = QuatMat4 (Rotation t);
            scale = Scale3D (fst (Scale t)) (fst (snd (Scale t))) (snd (snd (Scale t)))
        in Mul4 (Mul4 translation rotation) scale)"

text \<open>
  \<open>getGlobalNodeTransform\<close> calls itself on the parent and nothing bounds the
  recursion, so it is a partial function: \<open>None\<close> is a call that does not return.
  A returned value is the matrix or the panic of reading \<open>r.NodeParents\<close> out of
  range.
\<close>

partial_function (option) getGlobalNodeTransform :: "GLBRenderer \<Rightarrow> int \<Rightarrow> (panic + Mat4) option" where
  "getGlobalNodeTransform r nodeIndex =
     (if nodeIndex < 0 \<or> nodeIndex \<ge> int (length (NodeTransforms r)) then Some (Inr Ident4)
      else if nat nodeIndex \<ge> length (NodeParents r) then Some (Inl IndexOutOfRange)
      else if NodeParents r ! nat nodeIndex \<ge> 0 then
        Option.bind (getGlobalNodeTransform r (NodeParents r ! nat nodeIndex))
          (\<lambda>res. case res of
                    Inl e \<Rightarrow> Some (Inl e)
                  | Inr parentGlobal \<Rightarrow>
                      Some (Inr (Mul4 parentGlobal (getNodeTransformMatrix r nodeIndex))))
      else Some (Inr (getNodeTransformMatrix r nodeIndex)))"

text \<open>
  The parent chain of a node, for stating what \<open>getGlobalNodeTransform\<close> computes:
  \<open>parentChain r i xs\<close> holds when \<open>xs\<close> lists the nodes from a root (a node whose
  parent is negative) down to \<open>i\<close>, each the parent of the next. A node on a cycle of
  parents has no such chain.
\<close>

inductive parentChain :: "GLBRenderer \<Rightarrow> int \<Rightarrow> int list \<Rightarrow> bool" where
  root: "0 \<le> i \<Longrightarrow> i < int (length (NodeTransforms r)) \<Longrightarrow> nat i < length (NodeParents r) \<Longrightarrow>
         NodeParents r ! nat i < 0 \<Longrightarrow> parentChain r i [i]"
| step: "0 \<le> i \<Longrightarrow> i < int (length (NodeTransforms r)) \<Longrightarrow> nat i < length (NodeParents r) \<Longrightarrow>
         0 \<le> NodeParents r ! nat i \<Longrightarrow> parentChain r (NodeParents r ! nat i) xs \<Longrightarrow>
         parentChain r i (xs @ [i])"

inductive chainEnds :: "GLBRenderer \<Rightarrow> int \<Rightarrow> bool" where
  outside: "i < 0 \<or> i \<ge> int (length (NodeTransforms r)) \<Longrightarrow> chainEnds r i"
| unlisted: "0 \<le> i \<Longrightarrow> i < int (length (NodeTransforms r)) \<Longrightarrow> nat i \<ge> length (NodeParents r) \<Longrightarrow>
         chainEnds r i"
| root: "0 \<le> i \<Longrightarrow> i < int (length (NodeTransforms r)) \<Longrightarrow> nat i < length (NodeParents r) \<Longrightarrow>
         NodeParents r ! nat i < 0 \<Longrightarrow> chainEnds r i"
| step: "0 \<le> i \<Longrightarrow> i < int (length (NodeTransforms r)) \<Longrightarrow> nat i < length (NodeParents r) \<Longrightarrow>
         0 \<le> NodeParents r ! nat i \<Longrightarrow> chainEnds r (NodeParents r ! nat i) \<Longrightarrow>
         chainEnds r i"


text \<open>
  \<open>chainEnds r i\<close>: following the parents from \<open>i\<close> reaches, in finitely many steps,
  an index outside the nodes, a node with no entry in \<open>NodeParents\<close> or a node with a
  negative parent. \<open>ancestor r i j\<close>: \<open>j\<close> is reached from \<open>i\<close> by one or more
  parent steps.
\<close>

inductive ancestor :: "GLBRenderer \<Rightarrow> int \<Rightarrow> int \<Rightarrow> bool" where
  parent: "0 \<le> i \<Longrightarrow> i < int (length (NodeTransforms r)) \<Longrightarrow> nat i < length (NodeParents r) \<Longrightarrow>
           0 \<le> NodeParents r ! nat i \<Longrightarrow> ancestor r i (NodeParents r ! nat i)"
| further: "ancestor r i j \<Longrightarrow> 0 \<le> j \<Longrightarrow> j < int (length (NodeTransforms r)) \<Longrightarrow>
           nat j < length (NodeParents r) \<Longrightarrow> 0 \<le> NodeParents r ! nat j \<Longrightarrow>
           ancestor r i (NodeParents r ! nat j)"

section \<open>Skin resolver\<close>

definition zeroMat4 :: Mat4 where
  "zeroMat4 = ((0, 0, 0, 0), (0, 0, 0, 0), (0, 0, 0, 0), (0, 0, 0, 0))"

text \<open>
  The loop of \<open>computeBoneMatrices\<close> over the joints, by their positions in the skin.
  Both subscripts of the assignment are checked (\<open>r.BoneMatrices\<close> has been made long
  enough before the loop, so only the one of \<open>skin.InverseBindMatrices\<close> can fail).
\<close>

fun boneLoop :: "GLBRenderer \<Rightarrow> Skin \<Rightarrow> nat list \<Rightarrow> Mat4 list \<Rightarrow> (panic + Mat4 list) option" where
  "boneLoop r skin [] bm = Some (Inr bm)"
| "boneLoop r skin (i # js) bm =
     (case getGlobalNodeTransform r (Joints skin ! i) of
        None \<Rightarrow> None
      | Some (Inl e) \<Rightarrow> Some (Inl e)
      | Some (Inr globalJointTransform) \<Rightarrow>
          if i < length (InverseBindMatrices skin) \<and> i < length bm
          then boneLoop r skin js (bm[i := Mul4 globalJointTransform (InverseBindMatrices skin ! i)])
          else Some (Inl IndexOutOfRange))"

definition computeBoneMatrices :: "GLBRenderer \<Rightarrow> int \<Rightarrow> (panic + GLBRenderer) option" where
  "computeBoneMatrices r skinIndex =
     (if skinIndex < 0 \<or> skinIndex \<ge> int (length (Skins r)) then Some (Inr r)
      else
        let skin = Skins r ! nat skinIndex;
            bm = (if length (BoneMatrices r) < length (Joints skin)
                  then replicate (length (Joints skin)) zeroMat4
                  else BoneMatrices r)
        in case boneLoop r skin [0..<length (Joints skin)] bm of
             None \<Rightarrow> None
           | Some (Inl e) \<Rightarrow> Some (Inl e)
           | Some (Inr bm') \<Rightarrow> Some (Inr (r\<lparr>BoneMatrices := bm'\<rparr>)))"

section \<open>Frame renderer and texture\<close>

text \<open>
  The per-mesh part of \<open>Render\<close>: the bone matrices are computed and at most 128 of
  them are sent to the shader's \<open>boneMatrices\<close> array (128 identities for a mesh with
  no skin), then the mesh is drawn. The other uniforms (projection, view, model) and the
  texture binding are not modelled.
\<close>

definition drawCall :: "Mesh \<Rightarrow> gl_call" where
  "drawCall mesh = (if HasIndices mesh then DrawElements (IndexCount mesh) else DrawArrays (VertexCount mesh))"

definition renderMesh :: "GLBRenderer \<Rightarrow> Mesh \<Rightarrow> (panic + GLBRenderer \<times> gl_call list) option" where
  "renderMesh r mesh =
     (if SkinIndex mesh \<ge> 0 \<and> SkinIndex mesh < int (length (Skins r)) then
        (case computeBoneMatrices r (SkinIndex mesh) of
           None \<Rightarrow> None
         | Some (Inl e) \<Rightarrow> Some (Inl e)
         | Some (Inr r') \<Rightarrow>
             let numJoints = length (Joints (Skins r' ! nat (SkinIndex mesh)));
                 numJoints = (if numJoints > 128 then 128 else numJoints)
             in Some (Inr (r', map (\<lambda>i. UniformBoneMatrix i (BoneMatrices r' ! i)) [0..<numJoints]
                              @ [drawCall mesh])))
      else Some (Inr (r, map (\<lambda>i. UniformBoneMatrix i Ident4) [0..<128] @ [drawCall mesh])))"

fun renderMeshes :: "GLBRenderer \<Rightarrow> Mesh list \<Rightarrow> (panic + GLBRenderer \<times> gl_call list) option" where
  "renderMeshes r [] = Some (Inr (r, []))"
| "renderMeshes r (mesh # meshes) =
     (case renderMesh r mesh of
        None \<Rightarrow> None
      | Some (Inl e) \<Rightarrow> Some (Inl e)
      | Some (Inr (r', calls)) \<Rightarrow>
          (case renderMeshes r' meshes of
             None \<Rightarrow> None
           | Some (Inl e) \<Rightarrow> Some (Inl e)
           | Some (Inr (r'', calls')) \<Rightarrow> Some (Inr (r'', calls @ calls'))))"

definition Render ::
  "(Quat \<Rightarrow> Quat \<Rightarrow> float32 \<Rightarrow> Quat) \<Rightarrow> GLBRenderer \<Rightarrow> real \<Rightarrow> (panic + GLBRenderer \<times> gl_call list) option" where
  "Render slerp r now =
     (case UpdateAnimation slerp r now of
        Inl e \<Rightarrow> Some (Inl e)
      | Inr r' \<Rightarrow> renderMeshes r' (Meshes r'))"

text \<open>
  \<open>UpdateTexture\<close>: the renderer after the call and the OpenGL calls issued. The
  \<open>stride\<close> argument occurs nowhere in the body, and no pixel-store parameter is set
  anywhere in the file.
\<close>

definition UpdateTexture :: "GLBRenderer \<Rightarrow> byte list \<Rightarrow> int \<Rightarrow> int \<Rightarrow> int \<Rightarrow> GLBRenderer \<times> gl_call list" where
  "UpdateTexture r buffer width height stride =
     (if length buffer = 0 then (r, [])
      else if TextureWidth r \<noteq> width \<or> TextureHeight r \<noteq> height
      then (r\<lparr>TextureWidth := width, TextureHeight := height\<rparr>,
            [BindTexture, TexImage2D width height, TexSubImage2D width height buffer])
      else (r, [BindTexture, TexSubImage2D width height buffer]))"

text \<open>
  What OpenGL reads for row \<open>y\<close> of a \<open>TexSubImage2D\<close> upload of RGBA bytes when the
  pixel-store state is the initial one (\<open>UNPACK_ROW_LENGTH = 0\<close>, \<open>UNPACK_ALIGNMENT = 4\<close>):
  the rows are taken to be packed, \<open>width * 4\<close> bytes apart.
\<close>

fun uploadedRow :: "gl_call \<Rightarrow> nat \<Rightarrow> byte list" where
  "uploadedRow (TexSubImage2D width height buffer) y =
     take (nat width * 4) (drop (y * (nat width * 4)) buffer)"
| "uploadedRow _ y = []"

text \<open>Row \<open>y\<close> of a pixel buffer whose rows are \<open>stride\<close> bytes apart.\<close>

definition strideRow :: "byte list \<Rightarrow> int \<Rightarrow> int \<Rightarrow> nat \<Rightarrow> byte list" where
  "strideRow buffer width stride y = take (nat width * 4) (drop (y * nat stride) buffer)"

section \<open>Document loader\<close>

text \<open>
  The document \<open>gltf.Open\<close> returns (package \<open>github.com/qmuntal/gltf\<close>), as far as
  \<open>LoadGLB\<close> reads it. Indices are the integers of the file; a field that is a pointer
  in Go is an option. A primitive is kept as what the \<open>modeler\<close> package reads for its
  attributes. The elements of \<open>doc.Accessors\<close>, \<open>doc.BufferViews\<close> and
  \<open>doc.Buffers\<close> are pointers in Go; a document with a \<open>nil\<close> element in one of
  these slices is not represented.
\<close>

record gltf_Node =
  node_Children :: "int list"
  node_Mesh :: "int option"
  node_Skin :: "int option"
  node_Translation :: Vec3
  node_Rotation :: Vec4
  node_Scale :: Vec3

record gltf_Skin =
  skin_Joints :: "int list"
  skin_InverseBindMatrices :: "int option"

text \<open>
  \<open>prim_Position\<close>: \<open>None\<close> when the primitive has no POSITION attribute,
  \<open>Some None\<close> when \<open>modeler.ReadPosition\<close> fails. \<open>prim_Indices\<close>: the indices
  read, \<open>None\<close> when the primitive has none or reading them fails.
\<close>

record gltf_Primitive =
  prim_Position :: "Vec3 list option option"
  prim_Indices :: "nat list option"

text \<open>
  \<open>gltf.TRSProperty\<close>, the type of \<open>channel.Target.Path\<close>: an enumeration over
  \<open>uint8\<close> whose constants are numbered from 0 in this order. The document decoder
  turns the path name of the file into the constant.
\<close>

datatype TRSProperty = TRSTranslation | TRSRotation | TRSScale | TRSWeights

record gltf_Channel =
  chan_TargetNode :: "int option"
  chan_TargetPath :: TRSProperty
  chan_Sampler :: int

record gltf_Sampler =
  samp_Input :: int
  samp_Output :: int

record gltf_Animation =
  anim_Name :: string
  anim_Channels :: "gltf_Channel list"
  anim_Samplers :: "gltf_Sampler list"

datatype AccessorType =
  AccessorScalar
  | AccessorVec2
  | AccessorVec3
  | AccessorVec4
  | AccessorMat2
  | AccessorMat3
  | AccessorMat4

record gltf_Accessor =
  acc_BufferView :: "int option"
  acc_ByteOffset :: int
  acc_Type :: AccessorType
  acc_Count :: int

record gltf_BufferView =
  bv_Buffer :: int
  bv_ByteOffset :: int

text \<open>A buffer is its \<open>Data\<close>, the bytes \<open>gltf.Open\<close> has read for it.\<close>

record Document =
  doc_Nodes :: "gltf_Node list"
  doc_Meshes :: "gltf_Primitive list list"
  doc_Skins :: "gltf_Skin list"
  doc_Animations :: "gltf_Animation list"
  doc_Accessors :: "gltf_Accessor list"
  doc_BufferViews :: "gltf_BufferView list"
  doc_Buffers :: "byte list list"

datatype load_error =
  OpenError
  | NoPosition
  | ReadPositions
  | NoMeshes
  | LoadPanic panic

subsection \<open>Node hierarchy and node transforms\<close>

text \<open>The inner loop \<open>for _, childIdx := range node.Children\<close>.\<close>

fun setChildren :: "int \<Rightarrow> int list \<Rightarrow> int list \<Rightarrow> panic + int list" where
  "setChildren parentIdx [] parents = Inr parents"
| "setChildren parentIdx (childIdx # children) parents =
     (if 0 \<le> childIdx \<and> childIdx < int (length parents)
      then setChildren parentIdx children (parents[nat childIdx := parentIdx])
      else Inl IndexOutOfRange)"

text \<open>The outer loop \<open>for parentIdx, node := range doc.Nodes\<close>, from index \<open>parentIdx\<close> on.\<close>

fun parentsLoop :: "nat \<Rightarrow> gltf_Node list \<Rightarrow> int list \<Rightarrow> panic + int list" where
  "parentsLoop parentIdx [] parents = Inr parents"
| "parentsLoop parentIdx (node # nodes) parents =
     (case setChildren (int parentIdx) (node_Children node) parents of
        Inl e \<Rightarrow> Inl e
      | Inr parents' \<Rightarrow> parentsLoop (parentIdx + 1) nodes parents')"

definition buildNodeParents :: "Document \<Rightarrow> panic + int list" where
  "buildNodeParents doc = parentsLoop 0 (doc_Nodes doc) (replicate (length (doc_Nodes doc)) (- 1))"

definition nodeTransform :: "gltf_Node \<Rightarrow> NodeTransform" where
  "nodeTransform node =
     \<lparr>Translation =
        (if node_Translation node \<noteq> (0, 0, 0) then node_Translation node else (0, 0, 0)),
      Rotation =
        (if node_Rotation node \<noteq> (0, 0, 0, 1)
         then (case node_Rotation node of (x, y, z, w) \<Rightarrow> \<lparr>W = w, V = (x, y, z)\<rparr>)
         else QuatIdent),
      Scale =
        (if node_Scale node \<noteq> (1, 1, 1) \<and> node_Scale node \<noteq> (0, 0, 0) then node_Scale node
         else (1, 1, 1))\<rparr>"

subsection \<open>Reading an accessor\<close>

text \<open>
  \<open>float32frombits\<close> reinterprets the four bytes of a \<open>uint32\<close> as a \<open>float32\<close>:
  the value of the IEEE 754 single-precision number with these bits (sign, eight bits of
  exponent, 23 bits of fraction). An infinity or a NaN has no real value and is kept as 0.
\<close>

definition float32frombits :: "nat \<Rightarrow> float32" where
  "float32frombits b =
     (let sign = (if b div 2 ^ 31 mod 2 = 1 then - 1 else 1);
          e = b div 2 ^ 23 mod 256;
          m = b mod 2 ^ 23
      in
      if e = 0 then sign * (real m / 2 ^ 23) / 2 ^ 126
      else if e = 255 then 0
      else if e \<ge> 127 then sign * (1 + real m / 2 ^ 23) * 2 ^ (e - 127)
      else sign * (1 + real m / 2 ^ 23) / 2 ^ (127 - e))"

text \<open>
  The little-endian word
  \<open>uint32(data[offset]) | uint32(data[offset+1])<<8 | uint32(data[offset+2])<<16 | uint32(data[offset+3])<<24\<close>:
  the shifted bytes do not overlap, so the bitwise disjunction is their sum.
\<close>

definition uint32le :: "byte list \<Rightarrow> nat \<Rightarrow> nat" where
  "uint32le data offset =
     data ! offset + data ! (offset + 1) * 2 ^ 8 + data ! (offset + 2) * 2 ^ 16
       + data ! (offset + 3) * 2 ^ 24"

definition elemCount :: "AccessorType \<Rightarrow> int" where
  "elemCount t =
     (case t of
        AccessorScalar \<Rightarrow> 1
      | AccessorVec2 \<Rightarrow> 2
      | AccessorVec3 \<Rightarrow> 3
      | AccessorVec4 \<Rightarrow> 4
      | AccessorMat4 \<Rightarrow> 16
      | _ \<Rightarrow> 1)"

text \<open>
  \<open>readAccessorFloats\<close>. Only the accessor index is checked (the error of the inner
  sum); the buffer view of the accessor, the buffer of the view and the offset into the
  buffer's data are used as they are, and each of them can raise a panic (the outer sum).
  The loop fills \<open>result[i]\<close> for the indices whose four bytes lie within \<open>data\<close>
  and leaves the zero of \<open>make\<close> in the others.
\<close>

datatype accessor_error = InvalidAccessorIndex

definition readAccessorFloats :: "Document \<Rightarrow> int \<Rightarrow> panic + (accessor_error + float32 list)" where
  "readAccessorFloats doc accessorIndex =
     (if accessorIndex < 0 \<or> accessorIndex \<ge> int (length (doc_Accessors doc))
      then Inr (Inl InvalidAccessorIndex)
      else
        let accessor = doc_Accessors doc ! nat accessorIndex in
        case acc_BufferView accessor of
          None \<Rightarrow> Inl NilPointerDereference
        | Some bv \<Rightarrow>
            if bv < 0 \<or> bv \<ge> int (length (doc_BufferViews doc)) then Inl IndexOutOfRange
            else
              let bufferView = doc_BufferViews doc ! nat bv in
              if bv_Buffer bufferView < 0 \<or> bv_Buffer bufferView \<ge> int (length (doc_Buffers doc))
              then Inl IndexOutOfRange
              else
                let buffer = doc_Buffers doc ! nat (bv_Buffer bufferView);
                    start = bv_ByteOffset bufferView + acc_ByteOffset accessor
                in
                if start < 0 \<or> start > int (length buffer) then Inl SliceBoundsOutOfRange
                else
                  let data = drop (nat start) buffer;
                      totalFloats = acc_Count accessor * elemCount (acc_Type accessor)
                  in
                  if totalFloats < 0 then Inl MakeSliceLenOutOfRange
                  else
                    Inr (Inr (map (\<lambda>i. let offset = i * 4 in
                                         if offset + 4 \<le> length data
                                         then float32frombits (uint32le data offset) else 0)
                                [0..<nat totalFloats])))"

subsection \<open>Skins\<close>

definition mat4Of :: "float32 list \<Rightarrow> Mat4" where
  "mat4Of m =
     ((m ! 0, m ! 1, m ! 2, m ! 3), (m ! 4, m ! 5, m ! 6, m ! 7),
      (m ! 8, m ! 9, m ! 10, m ! 11), (m ! 12, m ! 13, m ! 14, m ! 15))"

text \<open>
  The loop \<open>for i := 0; i < len(s.Joints) && i*16+16 <= len(matrices); i++\<close> over the
  zeroed matrices \<open>ibm\<close>; \<open>n\<close> is \<open>len(s.Joints)\<close>.
\<close>

function ibmLoop :: "nat \<Rightarrow> nat \<Rightarrow> float32 list \<Rightarrow> Mat4 list \<Rightarrow> Mat4 list" where
  "ibmLoop i n matrices ibm =
     (if i < n \<and> i * 16 + 16 \<le> length matrices
      then ibmLoop (i + 1) n matrices (ibm[i := mat4Of (take 16 (drop (i * 16) matrices))])
      else ibm)"
  by pat_completeness auto
termination
  by (relation "measure (\<lambda>(i, n, matrices, ibm). n - i)") auto

declare ibmLoop.simps [simp del]

text \<open>The body of the loop \<open>for _, skin := range doc.Skins\<close>: the skin it appends.\<close>

definition loadSkin :: "Document \<Rightarrow> gltf_Skin \<Rightarrow> panic + Skin" where
  "loadSkin doc skin =
     (case skin_InverseBindMatrices skin of
        Some accessorIndex \<Rightarrow>
          (case readAccessorFloats doc accessorIndex of
             Inl e \<Rightarrow> Inl e
           | Inr (Inr matrices) \<Rightarrow>
               Inr \<lparr>Joints = skin_Joints skin,
                    InverseBindMatrices =
                      ibmLoop 0 (length (skin_Joints skin)) matrices
                        (replicate (length (skin_Joints skin)) zeroMat4)\<rparr>
           | Inr (Inl err) \<Rightarrow> Inr \<lparr>Joints = skin_Joints skin, InverseBindMatrices = []\<rparr>)
      | None \<Rightarrow>
          Inr \<lparr>Joints = skin_Joints skin,
               InverseBindMatrices = replicate (length (skin_Joints skin)) Ident4\<rparr>)"

fun skinsLoop :: "Document \<Rightarrow> gltf_Skin list \<Rightarrow> Skin list \<Rightarrow> panic + Skin list" where
  "skinsLoop doc [] skins = Inr skins"
| "skinsLoop doc (skin # rest) skins =
     (case loadSkin doc skin of
        Inl e \<Rightarrow> Inl e
      | Inr s \<Rightarrow> skinsLoop doc rest (skins @ [s]))"

fun maxJointsLoop :: "Skin list \<Rightarrow> nat \<Rightarrow> nat" where
  "maxJointsLoop [] maxJoints = maxJoints"
| "maxJointsLoop (skin # skins) maxJoints =
     maxJointsLoop skins (if length (Joints skin) > maxJoints then length (Joints skin) else maxJoints)"

definition initBoneMatrices :: "GLBRenderer \<Rightarrow> GLBRenderer" where
  "initBoneMatrices r =
     (if length (Skins r) > 0
      then r\<lparr>BoneMatrices := replicate (maxJointsLoop (Skins r) 0) Ident4\<rparr>
      else r)"

subsection \<open>Meshes\<close>

text \<open>
  \<open>loadPrimitive\<close>, without the vertex data and the buffer objects it hands to OpenGL.
\<close>

definition loadPrimitive :: "gltf_Primitive \<Rightarrow> load_error + Mesh" where
  "loadPrimitive prim =
     (case prim_Position prim of
        None \<Rightarrow> Inl NoPosition
      | Some None \<Rightarrow> Inl ReadPositions
      | Some (Some positions) \<Rightarrow>
          let indices = (case prim_Indices prim of None \<Rightarrow> [] | Some indices \<Rightarrow> indices);
              hasIndices = (length indices > 0)
          in Inr \<lparr>IndexCount = (if hasIndices then int (length indices) else 0),
                  HasIndices = hasIndices,
                  VertexCount = (if \<not> hasIndices then int (length positions) else 0),
                  MeshNodeIndex = 0,
                  SkinIndex = 0\<rparr>)"

fun primitivesLoop :: "nat \<Rightarrow> gltf_Node \<Rightarrow> gltf_Primitive list \<Rightarrow> Mesh list \<Rightarrow> load_error + Mesh list" where
  "primitivesLoop nodeIdx node [] meshes = Inr meshes"
| "primitivesLoop nodeIdx node (prim # prims) meshes =
     (case loadPrimitive prim of
        Inl e \<Rightarrow> Inl e
      | Inr m \<Rightarrow>
          primitivesLoop nodeIdx node prims
            (meshes @ [m\<lparr>MeshNodeIndex := int nodeIdx,
                         SkinIndex := (case node_Skin node of Some s \<Rightarrow> s | None \<Rightarrow> - 1)\<rparr>]))"

fun meshesLoop :: "Document \<Rightarrow> nat \<Rightarrow> gltf_Node list \<Rightarrow> Mesh list \<Rightarrow> load_error + Mesh list" where
  "meshesLoop doc nodeIdx [] meshes = Inr meshes"
| "meshesLoop doc nodeIdx (node # nodes) meshes =
     (case node_Mesh node of
        None \<Rightarrow> meshesLoop doc (nodeIdx + 1) nodes meshes
      | Some meshIdx \<Rightarrow>
          if meshIdx < 0 \<or> meshIdx \<ge> int (length (doc_Meshes doc)) then Inl (LoadPanic IndexOutOfRange)
          else
            (case primitivesLoop nodeIdx node (doc_Meshes doc ! nat meshIdx) meshes of
               Inl e \<Rightarrow> Inl e
             | Inr meshes' \<Rightarrow> meshesLoop doc (nodeIdx + 1) nodes meshes'))"

subsection \<open>Animations\<close>

text \<open>The decimal digits \<open>fmt.Sprintf("%d", n)\<close> prints for a length.\<close>

function showNat :: "nat \<Rightarrow> string" where
  "showNat n =
     (if n < 10 then [''0123456789'' ! n]
      else showNat (n div 10) @ [''0123456789'' ! (n mod 10)])"
  by pat_completeness auto
termination
  by (relation "measure id") auto

declare showNat.simps [simp del]

text \<open>
  The conversion \<open>string(channel.Target.Path)\<close> of line 379. The operand is an integer
  (\<open>TRSProperty\<close> is a \<open>uint8\<close>), and Go converts an integer to the string that holds
  the character with that code: a string of the one byte 0, 1, 2 or 3, not the name of
  the path.
\<close>

definition pathString :: "TRSProperty \<Rightarrow> string" where
  "pathString p =
     (case p of
        TRSTranslation \<Rightarrow> [CHR 0x00]
      | TRSRotation \<Rightarrow> [CHR 0x01]
      | TRSScale \<Rightarrow> [CHR 0x02]
      | TRSWeights \<Rightarrow> [CHR 0x03])"

text \<open>
  The loop over the channels of one animation: the animation \<open>a\<close> under construction
  gains a channel and its duration grows to the channel's last timestamp.
\<close>

fun channelsLoop :: "Document \<Rightarrow> gltf_Animation \<Rightarrow> gltf_Channel list \<Rightarrow> Animation \<Rightarrow> panic + Animation" where
  "channelsLoop doc anim [] a = Inr a"
| "channelsLoop doc anim (channel # channels) a =
     (case chan_TargetNode channel of
        None \<Rightarrow> channelsLoop doc anim channels a
      | Some node \<Rightarrow>
          if chan_Sampler channel < 0 \<or> chan_Sampler channel \<ge> int (length (anim_Samplers anim))
          then Inl IndexOutOfRange
          else
            let sampler = anim_Samplers anim ! nat (chan_Sampler channel) in
            (case readAccessorFloats doc (samp_Input sampler) of
               Inl e \<Rightarrow> Inl e
             | Inr (Inl err) \<Rightarrow> channelsLoop doc anim channels a
             | Inr (Inr timestamps) \<Rightarrow>
                 (case readAccessorFloats doc (samp_Output sampler) of
                    Inl e \<Rightarrow> Inl e
                  | Inr (Inl err) \<Rightarrow> channelsLoop doc anim channels a
                  | Inr (Inr vals) \<Rightarrow>
                      channelsLoop doc anim channels
                        (a\<lparr>Duration :=
                             (if length timestamps > 0 \<and> last timestamps > Duration a
                              then last timestamps else Duration a),
                           Channels := Channels a @
                             [\<lparr>NodeIndex = node, Path = pathString (chan_TargetPath channel),
                               Timestamps = timestamps, Values = vals\<rparr>]\<rparr>))))"

definition animationName :: "gltf_Animation \<Rightarrow> nat \<Rightarrow> string" where
  "animationName anim n =
     (if anim_Name anim = [] then ''animation_'' @ showNat n else anim_Name anim)"

fun animationsLoop :: "Document \<Rightarrow> gltf_Animation list \<Rightarrow> (string \<times> Animation) list \<Rightarrow> panic + (string \<times> Animation) list" where
  "animationsLoop doc [] anims = Inr anims"
| "animationsLoop doc (anim # rest) anims =
     (let name = animationName anim (length anims)
      in case channelsLoop doc anim (anim_Channels anim) \<lparr>Name = name, Channels = [], Duration = 0\<rparr> of
           Inl e \<Rightarrow> Inl e
         | Inr a \<Rightarrow>
             animationsLoop doc rest
               (if length (Channels a) > 0 then AList.update name a anims else anims))"

subsection \<open>LoadGLB\<close>

text \<open>
  \<open>LoadGLB\<close> on the result of \<open>gltf.Open\<close> (\<open>None\<close> when opening fails). An error or
  a panic ends the load; the renderer is returned when the load succeeds.
\<close>

definition LoadGLB :: "GLBRenderer \<Rightarrow> Document option \<Rightarrow> load_error + GLBRenderer" where
  "LoadGLB r opened =
     (case opened of
        None \<Rightarrow> Inl OpenError
      | Some doc \<Rightarrow>
          (case buildNodeParents doc of
             Inl e \<Rightarrow> Inl (LoadPanic e)
           | Inr parents \<Rightarrow>
               let r1 = r\<lparr>NodeParents := parents,
                          NodeTransforms := map nodeTransform (doc_Nodes doc),
                          BaseTransforms := map nodeTransform (doc_Nodes doc)\<rparr>
               in
               (case skinsLoop doc (doc_Skins doc) (Skins r1) of
                  Inl e \<Rightarrow> Inl (LoadPanic e)
                | Inr skins \<Rightarrow>
                    let r3 = initBoneMatrices (r1\<lparr>Skins := skins\<rparr>) in
                    (case meshesLoop doc 0 (doc_Nodes doc) (Meshes r3) of
                       Inl e \<Rightarrow> Inl e
                     | Inr meshes \<Rightarrow>
                         if length meshes = 0 then Inl NoMeshes
                         else
                           (case animationsLoop doc (doc_Animations doc) (Animations r3) of
                              Inl e \<Rightarrow> Inl (LoadPanic e)
                            | Inr anims \<Rightarrow> Inr (r3\<lparr>Meshes := meshes, Animations := anims\<rparr>))))))"

section \<open>The states the renderer reaches\<close>

text \<open>
  The renderer \<open>NewGLBRenderer\<close> returns when the shaders compile: the animation map
  is empty and every other field that is modelled has its zero value.
\<close>

definition NewGLBRenderer :: GLBRenderer where
  "NewGLBRenderer = \<lparr>Meshes = [], TextureWidth = 0, TextureHeight = 0, ModelRotation = 0,
               Animations = [], NodeTransforms = [], BaseTransforms = [], CurrentAnim = None,
               AnimStartTime = 0, AnimLoop = False, Skins = [], NodeParents = [],
               BoneMatrices = []\<rparr>"

text \<open>
  The states a program reaches through the methods of the renderer: from the new renderer
  by a \<open>LoadGLB\<close> that succeeds, \<open>PlayAnimation\<close>, \<open>StopAnimation\<close>,
  \<open>UpdateAnimation\<close>, the bone matrices \<open>Render\<close> computes for a mesh,
  \<open>UpdateTexture\<close>, and an assignment to \<open>Rotation\<close>, the one field that
  \<open>main.go\<close> assigns. A call that panics yields no state, and neither does a load
  that fails (\<open>main.go\<close> ends the program then).
\<close>

inductive reachable :: "GLBRenderer \<Rightarrow> bool" where
  created: "reachable NewGLBRenderer"
| loaded: "reachable r \<Longrightarrow> LoadGLB r (Some doc) = Inr r' \<Longrightarrow> reachable r'"
| played: "reachable r \<Longrightarrow> PlayAnimation r name loop now = (r', e) \<Longrightarrow> reachable r'"
| stopped: "reachable r \<Longrightarrow> StopAnimation r = Inr r' \<Longrightarrow> reachable r'"
| updated: "reachable r \<Longrightarrow> UpdateAnimation slerp r now = Inr r' \<Longrightarrow> reachable r'"
| skinned: "reachable r \<Longrightarrow> computeBoneMatrices r skinIndex = Some (Inr r') \<Longrightarrow> reachable r'"
| textured: "reachable r \<Longrightarrow> UpdateTexture r buffer width height stride = (r', calls) \<Longrightarrow> reachable r'"
| rotated: "reachable r \<Longrightarrow> reachable (r\<lparr>ModelRotation := angle\<rparr>)"

text \<open>
  A clip as \<open>LoadGLB\<close> builds it: the path of every channel is one of the one-byte
  strings of \<open>pathString\<close>.
\<close>

definition loadedClip :: "Animation \<Rightarrow> bool" where
  "loadedClip a = (\<forall>c \<in> set (Channels a). \<exists>p. Path c = pathString p)"

section \<open>Concrete inputs\<close>

text \<open>
  A stand-in for \<open>mgl32.QuatSlerp\<close> where a concrete function is needed: the
  component-wise interpolation of the library's \<open>QuatLerp\<close>.
\<close>

definition QuatLerp :: "Quat \<Rightarrow> Quat \<Rightarrow> float32 \<Rightarrow> Quat" where
  "QuatLerp q1 q2 amount =
     \<lparr>W = W q1 + (W q2 - W q1) * amount,
      V = (fst (V q1) + (fst (V q2) - fst (V q1)) * amount,
           fst (snd (V q1)) + (fst (snd (V q2)) - fst (snd (V q1))) * amount,
           snd (snd (V q1)) + (snd (snd (V q2)) - snd (snd (V q1))) * amount)\<rparr>"

text \<open>
  A renderer with one node and two clips, and some channels, written out by hand. The
  paths of these channels are the names \<open>translation\<close>, \<open>rotation\<close> and
  \<open>scale\<close> that \<open>interpolateKeyframes\<close> and \<open>UpdateAnimation\<close> compare a path
  with. \<open>LoadGLB\<close> stores the strings of \<open>pathString\<close> instead; the renderer it
  makes of a document with animations is \<open>exAnimLoaded\<close> below.
\<close>

definition exBase :: NodeTransform where
  "exBase = \<lparr>Translation = (0, 0, 0), Rotation = QuatIdent, Scale = (1, 1, 1)\<rparr>"

definition exPose :: NodeTransform where
  "exPose = \<lparr>Translation = (5, 0, 0), Rotation = QuatIdent, Scale = (1, 1, 1)\<rparr>"

definition exChannel :: AnimationChannel where
  "exChannel = \<lparr>NodeIndex = 0, Path = ''translation'', Timestamps = [0, 1],
                 Values = [0, 0, 0, 10, 0, 0]\<rparr>"

definition exClip :: Animation where
  "exClip = \<lparr>Name = ''walk'', Channels = [exChannel], Duration = 1\<rparr>"

definition exIdleChannel :: AnimationChannel where
  "exIdleChannel = \<lparr>NodeIndex = 0, Path = ''scale'', Timestamps = [0], Values = [2, 2, 2]\<rparr>"

definition exIdle :: Animation where
  "exIdle = \<lparr>Name = ''idle'', Channels = [exIdleChannel], Duration = 0\<rparr>"

definition exLoaded :: GLBRenderer where
  "exLoaded = \<lparr>Meshes = [], TextureWidth = 0, TextureHeight = 0, ModelRotation = 0,
                Animations = [(''walk'', exClip), (''idle'', exIdle)], NodeTransforms = [exBase],
                BaseTransforms = [exBase], CurrentAnim = None, AnimStartTime = 0,
                AnimLoop = False, Skins = [], NodeParents = [- 1], BoneMatrices = []\<rparr>"

definition exNoNode :: AnimationChannel where
  "exNoNode = \<lparr>NodeIndex = 7, Path = ''translation'', Timestamps = [0, 1], Values = []\<rparr>"

definition exNoKeys :: AnimationChannel where
  "exNoKeys = \<lparr>NodeIndex = 0, Path = ''rotation'', Timestamps = [], Values = [0, 0, 0, 1]\<rparr>"

definition exRotChannel :: AnimationChannel where
  "exRotChannel = \<lparr>NodeIndex = 0, Path = ''rotation'', Timestamps = [0, 2],
                    Values = [0, 0, 0, 1, 0, 1, 0, 0]\<rparr>"

text \<open>A channel with two timestamps and a value buffer that holds one sample only.\<close>

definition exShort :: AnimationChannel where
  "exShort = \<lparr>NodeIndex = 0, Path = ''translation'', Timestamps = [0, 1], Values = [1, 2, 3]\<rparr>"

text \<open>A channel with two timestamps and an empty value buffer.\<close>

definition exNoValues :: AnimationChannel where
  "exNoValues = \<lparr>NodeIndex = 0, Path = ''translation'', Timestamps = [0, 1], Values = []\<rparr>"

text \<open>
  A rig of two joints: node 0 is the root (translation \<open>(1, 0, 0)\<close>, scale 2), node 1
  its child (translation \<open>(0, 3, 0)\<close>); one skin over both with identity inverse-bind
  matrices. The two matrices are the global transforms of the nodes.
\<close>

definition exRig :: GLBRenderer where
  "exRig = \<lparr>Meshes = [\<lparr>IndexCount = 0, HasIndices = False, VertexCount = 3,
                         MeshNodeIndex = 1, SkinIndex = 0\<rparr>],
             TextureWidth = 0, TextureHeight = 0, ModelRotation = 0, Animations = [],
             NodeTransforms = [\<lparr>Translation = (1, 0, 0), Rotation = QuatIdent, Scale = (2, 2, 2)\<rparr>,
                               \<lparr>Translation = (0, 3, 0), Rotation = QuatIdent, Scale = (1, 1, 1)\<rparr>],
             BaseTransforms = [\<lparr>Translation = (1, 0, 0), Rotation = QuatIdent, Scale = (2, 2, 2)\<rparr>,
                               \<lparr>Translation = (0, 3, 0), Rotation = QuatIdent, Scale = (1, 1, 1)\<rparr>],
             CurrentAnim = None, AnimStartTime = 0, AnimLoop = False,
             Skins = [\<lparr>Joints = [0, 1], InverseBindMatrices = [Ident4, Ident4]\<rparr>],
             NodeParents = [- 1, 0], BoneMatrices = [Ident4, Ident4]\<rparr>"

definition exRigGlobal0 :: Mat4 where
  "exRigGlobal0 = ((2, 0, 0, 0), (0, 2, 0, 0), (0, 0, 2, 0), (1, 0, 0, 1))"

definition exRigGlobal1 :: Mat4 where
  "exRigGlobal1 = ((2, 0, 0, 0), (0, 2, 0, 0), (0, 0, 2, 0), (1, 6, 0, 1))"

text \<open>
  The renderer \<open>NewGLBRenderer\<close> returns, before anything is loaded; a primitive with
  three positions and no indices, and the mesh \<open>loadPrimitive\<close> makes of it.
\<close>

definition exEmpty :: GLBRenderer where
  "exEmpty = NewGLBRenderer"

definition exTriangle :: gltf_Primitive where
  "exTriangle = \<lparr>prim_Position = Some (Some [(0, 0, 0), (1, 0, 0), (0, 1, 0)]),
                  prim_Indices = None\<rparr>"

definition exTriangleMesh :: Mesh where
  "exTriangleMesh = \<lparr>IndexCount = 0, HasIndices = False, VertexCount = 3, MeshNodeIndex = 0,
                      SkinIndex = - 1\<rparr>"

text \<open>
  A document whose only node lists itself as its child, and the renderer after loading
  it.
\<close>

definition exCyclicDoc :: Document where
  "exCyclicDoc =
     \<lparr>doc_Nodes = [\<lparr>node_Children = [0], node_Mesh = Some 0, node_Skin = None,
                    node_Translation = (0, 0, 0), node_Rotation = (0, 0, 0, 1),
                    node_Scale = (1, 1, 1)\<rparr>],
      doc_Meshes = [[exTriangle]], doc_Skins = [], doc_Animations = [], doc_Accessors = [],
      doc_BufferViews = [], doc_Buffers = []\<rparr>"

definition exCyclicLoaded :: GLBRenderer where
  "exCyclicLoaded = exEmpty\<lparr>Meshes := [exTriangleMesh], NodeTransforms := [exBase],
                            BaseTransforms := [exBase], NodeParents := [0]\<rparr>"





text \<open>
  A document with one node and two animations over the same timestamps \<open>[0, 1]\<close>
  (accessor 0): \<open>walk\<close> moves node 0 and has the two samples \<open>(0, 0, 0)\<close> and
  \<open>(2, 0, 0)\<close> (accessor 1); \<open>cut\<close> scales node 0 and its value accessor
  (accessor 2) has the count 0. The buffer holds the eight little-endian floats
  \<open>0, 1, 0, 0, 0, 2, 0, 0\<close>. Then the two clips and the renderer \<open>LoadGLB\<close> makes
  of the document, and the renderer while \<open>walk\<close> or \<open>cut\<close> is played, without
  looping, since time 0.
\<close>

definition exAnimDoc :: Document where
  "exAnimDoc =
     \<lparr>doc_Nodes = [\<lparr>node_Children = [], node_Mesh = Some 0, node_Skin = None,
                    node_Translation = (0, 0, 0), node_Rotation = (0, 0, 0, 1),
                    node_Scale = (1, 1, 1)\<rparr>],
      doc_Meshes = [[exTriangle]], doc_Skins = [],
      doc_Animations =
        [\<lparr>anim_Name = ''walk'',
          anim_Channels = [\<lparr>chan_TargetNode = Some 0, chan_TargetPath = TRSTranslation,
                            chan_Sampler = 0\<rparr>],
          anim_Samplers = [\<lparr>samp_Input = 0, samp_Output = 1\<rparr>]\<rparr>,
         \<lparr>anim_Name = ''cut'',
          anim_Channels = [\<lparr>chan_TargetNode = Some 0, chan_TargetPath = TRSScale,
                            chan_Sampler = 0\<rparr>],
          anim_Samplers = [\<lparr>samp_Input = 0, samp_Output = 2\<rparr>]\<rparr>],
      doc_Accessors =
        [\<lparr>acc_BufferView = Some 0, acc_ByteOffset = 0, acc_Type = AccessorScalar, acc_Count = 2\<rparr>,
         \<lparr>acc_BufferView = Some 0, acc_ByteOffset = 8, acc_Type = AccessorVec3, acc_Count = 2\<rparr>,
         \<lparr>acc_BufferView = Some 0, acc_ByteOffset = 8, acc_Type = AccessorVec3, acc_Count = 0\<rparr>],
      doc_BufferViews = [\<lparr>bv_Buffer = 0, bv_ByteOffset = 0\<rparr>],
      doc_Buffers = [[0, 0, 0, 0, 0, 0, 128, 63,
                      0, 0, 0, 0, 0, 0, 0, 0, 0, 0, 0, 0,
                      0, 0, 0, 64, 0, 0, 0, 0, 0, 0, 0, 0]]\<rparr>"

definition exWalk :: Animation where
  "exWalk = \<lparr>Name = ''walk'',
             Channels = [\<lparr>NodeIndex = 0, Path = [CHR 0x00], Timestamps = [0, 1],
                          Values = [0, 0, 0, 2, 0, 0]\<rparr>],
             Duration = 1\<rparr>"

definition exCut :: Animation where
  "exCut = \<lparr>Name = ''cut'',
            Channels = [\<lparr>NodeIndex = 0, Path = [CHR 0x02], Timestamps = [0, 1], Values = []\<rparr>],
            Duration = 1\<rparr>"

definition exAnimLoaded :: GLBRenderer where
  "exAnimLoaded = NewGLBRenderer\<lparr>Meshes := [exTriangleMesh], NodeTransforms := [exBase],
                     BaseTransforms := [exBase], NodeParents := [- 1],
                     Animations := [(''walk'', exWalk), (''cut'', exCut)]\<rparr>"

definition exAnimPlaying :: GLBRenderer where
  "exAnimPlaying = exAnimLoaded\<lparr>CurrentAnim := Some exWalk, AnimStartTime := 0, AnimLoop := False\<rparr>"

definition exCutPlaying :: GLBRenderer where
  "exCutPlaying = exAnimLoaded\<lparr>CurrentAnim := Some exCut, AnimStartTime := 0, AnimLoop := False\<rparr>"

text \<open>
  A pixel buffer of two rows of two RGBA pixels with a row stride of 12 bytes: each row
  is followed by four bytes of padding.
\<close>

definition exPixels :: "byte list" where
  "exPixels = [1, 1, 1, 1, 2, 2, 2, 2, 0, 0, 0, 0,
               3, 3, 3, 3, 4, 4, 4, 4, 0, 0, 0, 0]"

section \<open>Properties of the animation engine\<close>

subsection \<open>Resetting and applying channels\<close>

lemma resetLoop_fold:
  "\<forall>i \<in> set js. i < length base \<Longrightarrow>
   resetLoop js nts base = Inr (fold (\<lambda>i xs. xs[i := base ! i]) js nts)"
  by (induction js arbitrary: nts) auto

lemma resetLoop_fails:
  "\<exists>i \<in> set js. \<not> i < length base \<Longrightarrow> resetLoop js nts base = Inl IndexOutOfRange"
  by (induction js arbitrary: nts) auto

lemma fold_update_length:
  "length (fold (\<lambda>i xs. xs[i := f i]) js xs) = length xs"
  by (induction js arbitrary: xs) auto

lemma fold_update_nth:
  "j < length xs \<Longrightarrow>
   fold (\<lambda>i xs. xs[i := f i]) js xs ! j = (if j \<in> set js then f j else xs ! j)"
  by (induction js arbitrary: xs) (auto simp: fold_update_length nth_list_update)

lemma resetLoop_upt:
  assumes "length nts \<le> length base"
  shows "resetLoop [0..<length nts] nts base = Inr (take (length nts) base)"
proof -
  have "resetLoop [0..<length nts] nts base
        = Inr (fold (\<lambda>i xs. xs[i := base ! i]) [0..<length nts] nts)"
    using assms by (intro resetLoop_fold) auto
  moreover have "fold (\<lambda>i xs. xs[i := base ! i]) [0..<length nts] nts = take (length nts) base"
    using assms by (intro nth_equalityI) (auto simp: fold_update_length fold_update_nth)
  ultimately show ?thesis by simp
qed

lemma resetToBase_ok:
  "length (NodeTransforms r) \<le> length (BaseTransforms r) \<Longrightarrow>
   resetToBase r = Inr (r\<lparr>NodeTransforms := take (length (NodeTransforms r)) (BaseTransforms r)\<rparr>)"
  by (simp add: resetToBase_def resetLoop_upt)

lemma resetToBase_panics:
  "length (BaseTransforms r) < length (NodeTransforms r) \<Longrightarrow> resetToBase r = Inl IndexOutOfRange"
proof -
  assume a: "length (BaseTransforms r) < length (NodeTransforms r)"
  then have "\<exists>i \<in> set [0..<length (NodeTransforms r)]. \<not> i < length (BaseTransforms r)"
    by (intro bexI[of _ "length (BaseTransforms r)"]) auto
  then show ?thesis by (simp add: resetToBase_def resetLoop_fails)
qed

lemma resetToBase_Inr:
  "resetToBase r = Inr r1 \<Longrightarrow>
     length (NodeTransforms r) \<le> length (BaseTransforms r) \<and>
     r1 = r\<lparr>NodeTransforms := take (length (NodeTransforms r)) (BaseTransforms r)\<rparr>"
  by (cases "length (NodeTransforms r) \<le> length (BaseTransforms r)")
     (auto simp: resetToBase_ok resetToBase_panics)

lemma applyChannel_length:
  "applyChannel slerp c e nts = Inr nts' \<Longrightarrow> length nts' = length nts"
  by (auto simp: applyChannel_def Let_def split: if_splits sum.splits)

lemma applyChannel_Translation:
  "applyChannel slerp c e nts = Inr nts' \<Longrightarrow> i < length nts \<Longrightarrow>
   \<not> (NodeIndex c = int i \<and> Path c = ''translation'') \<Longrightarrow>
   Translation (nts' ! i) = Translation (nts ! i)"
  by (auto simp: applyChannel_def Let_def nth_list_update split: if_splits sum.splits)

lemma applyChannel_Rotation:
  "applyChannel slerp c e nts = Inr nts' \<Longrightarrow> i < length nts \<Longrightarrow>
   \<not> (NodeIndex c = int i \<and> Path c = ''rotation'') \<Longrightarrow>
   Rotation (nts' ! i) = Rotation (nts ! i)"
  by (auto simp: applyChannel_def Let_def nth_list_update split: if_splits sum.splits)

lemma applyChannel_Scale:
  "applyChannel slerp c e nts = Inr nts' \<Longrightarrow> i < length nts \<Longrightarrow>
   \<not> (NodeIndex c = int i \<and> Path c = ''scale'') \<Longrightarrow>
   Scale (nts' ! i) = Scale (nts ! i)"
  by (auto simp: applyChannel_def Let_def nth_list_update split: if_splits sum.splits)



lemma applyChannels_length:
  "applyChannels slerp cs e nts = Inr nts' \<Longrightarrow> length nts' = length nts"
  by (induction cs arbitrary: nts) (auto split: sum.splits dest: applyChannel_length)

lemma applyChannels_Translation:
  "applyChannels slerp cs e nts = Inr nts' \<Longrightarrow> i < length nts \<Longrightarrow>
   \<forall>c \<in> set cs. \<not> (NodeIndex c = int i \<and> Path c = ''translation'') \<Longrightarrow>
   Translation (nts' ! i) = Translation (nts ! i)"
proof (induction cs arbitrary: nts)
  case Nil
  then show ?case by simp
next
  case (Cons c cs)
  from Cons.prems(1) obtain nts1 where
    c: "applyChannel slerp c e nts = Inr nts1" and cs: "applyChannels slerp cs e nts1 = Inr nts'"
    by (auto split: sum.splits)
  have "Translation (nts' ! i) = Translation (nts1 ! i)"
    using Cons.IH[OF cs] Cons.prems applyChannel_length[OF c] by simp
  also have "\<dots> = Translation (nts ! i)"
    using applyChannel_Translation[OF c] Cons.prems by simp
  finally show ?case .
qed

lemma applyChannels_Rotation:
  "applyChannels slerp cs e nts = Inr nts' \<Longrightarrow> i < length nts \<Longrightarrow>
   \<forall>c \<in> set cs. \<not> (NodeIndex c = int i \<and> Path c = ''rotation'') \<Longrightarrow>
   Rotation (nts' ! i) = Rotation (nts ! i)"
proof (induction cs arbitrary: nts)
  case Nil
  then show ?case by simp
next
  case (Cons c cs)
  from Cons.prems(1) obtain nts1 where
    c: "applyChannel slerp c e nts = Inr nts1" and cs: "applyChannels slerp cs e nts1 = Inr nts'"
    by (auto split: sum.splits)
  have "Rotation (nts' ! i) = Rotation (nts1 ! i)"
    using Cons.IH[OF cs] Cons.prems applyChannel_length[OF c] by simp
  also have "\<dots> = Rotation (nts ! i)"
    using applyChannel_Rotation[OF c] Cons.prems by simp
  finally show ?case .
qed

lemma applyChannels_Scale:
  "applyChannels slerp cs e nts = Inr nts' \<Longrightarrow> i < length nts \<Longrightarrow>
   \<forall>c \<in> set cs. \<not> (NodeIndex c = int i \<and> Path c = ''scale'') \<Longrightarrow>
   Scale (nts' ! i) = Scale (nts ! i)"
proof (induction cs arbitrary: nts)
  case Nil
  then show ?case by simp
next
  case (Cons c cs)
  from Cons.prems(1) obtain nts1 where
    c: "applyChannel slerp c e nts = Inr nts1" and cs: "applyChannels slerp cs e nts1 = Inr nts'"
    by (auto split: sum.splits)
  have "Scale (nts' ! i) = Scale (nts1 ! i)"
    using Cons.IH[OF cs] Cons.prems applyChannel_length[OF c] by simp
  also have "\<dots> = Scale (nts ! i)"
    using applyChannel_Scale[OF c] Cons.prems by simp
  finally show ?case .
qed

lemma applyChannel_skip_index:
  "NodeIndex c < 0 \<or> NodeIndex c \<ge> int (length nts) \<Longrightarrow> applyChannel slerp c e nts = Inr nts"
  by (auto simp: applyChannel_def)

lemma interpolateKeyframes_no_keys:
  "Timestamps c = [] \<Longrightarrow> interpolateKeyframes slerp c e = Inr []"
  by (simp add: interpolateKeyframes_def)

lemma applyChannel_skip_no_keys:
  "Timestamps c = [] \<Longrightarrow> applyChannel slerp c e nts = Inr nts"
  by (simp add: applyChannel_def interpolateKeyframes_no_keys Let_def)

lemma applyChannels_filter_skipped:
  "applyChannels slerp cs e nts =
   applyChannels slerp
     (filter (\<lambda>c. \<not> (NodeIndex c < 0 \<or> NodeIndex c \<ge> int (length nts) \<or> Timestamps c = [])) cs)
     e nts"
proof (induction cs arbitrary: nts)
  case Nil
  then show ?case by simp
next
  case (Cons c cs)
  show ?case
  proof (cases "NodeIndex c < 0 \<or> NodeIndex c \<ge> int (length nts) \<or> Timestamps c = []")
    case True
    then have "applyChannel slerp c e nts = Inr nts"
      using applyChannel_skip_index applyChannel_skip_no_keys by blast
    with True Cons.IH[of nts] show ?thesis by simp
  next
    case False
    show ?thesis
    proof (cases "applyChannel slerp c e nts")
      case (Inl err)
      with False show ?thesis by simp
    next
      case (Inr nts1)
      then have "length nts1 = length nts" by (rule applyChannel_length)
      with Inr False Cons.IH[of nts1] show ?thesis by simp
    qed
  qed
qed


lemmas ex_defs = exLoaded_def exClip_def exChannel_def exBase_def exPose_def

lemmas anim_defs = UpdateAnimation_def applyAnimation_def resetToBase_def applyChannel_def
  interpolateKeyframes_def componentCount_def blendKeyframes_def Search_def SearchLoop.simps Let_def clamp01_def slice_def upt_rec

lemma applyAnimation_Inr:
  assumes "applyAnimation slerp anim e r = Inr r'"
  shows "length (NodeTransforms r) \<le> length (BaseTransforms r)
     \<and> applyChannels slerp (Channels anim) e (take (length (NodeTransforms r)) (BaseTransforms r))
           = Inr (NodeTransforms r')
     \<and> r' = r\<lparr>NodeTransforms := NodeTransforms r'\<rparr>"
proof -
  from assms obtain r1 where r1: "resetToBase r = Inr r1"
    by (auto simp: applyAnimation_def split: sum.splits)
  note R = resetToBase_Inr[OF r1]
  from assms r1 obtain nts where
    nts: "applyChannels slerp (Channels anim) e (NodeTransforms r1) = Inr nts"
    and r': "r' = r1\<lparr>NodeTransforms := nts\<rparr>"
    by (auto simp: applyAnimation_def split: sum.splits)
  from R r' nts show ?thesis by simp
qed

lemma UpdateAnimation_playing:
  assumes "CurrentAnim r = Some anim"
    and "(AnimLoop r \<and> Duration anim > 0) \<or> \<not> now - AnimStartTime r > Duration anim"
  shows "UpdateAnimation slerp r now =
     applyAnimation slerp anim
       (if AnimLoop r \<and> Duration anim > 0 then fmod (now - AnimStartTime r) (Duration anim)
        else now - AnimStartTime r) r"
  using assms by (auto simp: UpdateAnimation_def Let_def)

lemma applyChannel_other_node:
  "applyChannel slerp c e nts = Inr nts' \<Longrightarrow> NodeIndex c \<noteq> int i \<Longrightarrow> nts' ! i = nts ! i"
  by (auto simp: applyChannel_def Let_def nth_list_update split: if_splits sum.splits)

subsection \<open>Binary search and interpolation\<close>

lemma SearchLoop_inv:
  "\<forall>a b. a \<le> b \<and> b < n \<and> f a \<longrightarrow> f b \<Longrightarrow> i \<le> j \<Longrightarrow> j \<le> n \<Longrightarrow>
     (\<forall>k < i. \<not> f k) \<Longrightarrow> (j < n \<longrightarrow> f j) \<Longrightarrow>
     i \<le> SearchLoop f i j \<and> SearchLoop f i j \<le> j
     \<and> (SearchLoop f i j < n \<longrightarrow> f (SearchLoop f i j))
     \<and> (\<forall>k < SearchLoop f i j. \<not> f k)"
proof (induction f i j rule: SearchLoop.induct)
  case (1 f i j)
  note mono = "1.prems"(1)
  show ?case
  proof (cases "i < j")
    case False
    with "1.prems" have "i = j" by simp
    then have "SearchLoop f i j = i" by (subst SearchLoop.simps) simp
    with \<open>i = j\<close> "1.prems"(4,5) show ?thesis by simp
  next
    case True
    define h where "h = (i + j) div 2"
    have h: "i \<le> h" "h < j" using True by (simp_all add: h_def)
    have hn: "h < n" using h "1.prems"(3) by simp
    show ?thesis
    proof (cases "f h")
      case fh: True
      have eq: "SearchLoop f i j = SearchLoop f i h"
        using True fh by (subst SearchLoop.simps) (simp add: h_def Let_def)
      have nn: "\<not> \<not> f h" using fh by simp
      have "i \<le> SearchLoop f i h \<and> SearchLoop f i h \<le> h
         \<and> (SearchLoop f i h < n \<longrightarrow> f (SearchLoop f i h))
         \<and> (\<forall>k < SearchLoop f i h. \<not> f k)"
      proof (rule "1.IH"(2)[OF True h_def nn mono])
        show "i \<le> h" by (rule h)
        show "h \<le> n" using hn by simp
        show "\<forall>k<i. \<not> f k" by (rule "1.prems"(4))
        show "h < n \<longrightarrow> f h" using fh by simp
      qed
      with eq h show ?thesis by simp
    next
      case nfh: False
      have eq: "SearchLoop f i j = SearchLoop f (h + 1) j"
        using True nfh by (subst SearchLoop.simps) (simp add: h_def Let_def)
      have below: "\<forall>k < h + 1. \<not> f k"
      proof (intro allI impI)
        fix k assume "k < h + 1"
        then have "k \<le> h" by simp
        then show "\<not> f k" using mono nfh hn by blast
      qed
      have "h + 1 \<le> SearchLoop f (h + 1) j \<and> SearchLoop f (h + 1) j \<le> j
         \<and> (SearchLoop f (h + 1) j < n \<longrightarrow> f (SearchLoop f (h + 1) j))
         \<and> (\<forall>k < SearchLoop f (h + 1) j. \<not> f k)"
      proof (rule "1.IH"(1)[OF True h_def nfh mono])
        show "h + 1 \<le> j" using h by simp
        show "j \<le> n" by (rule "1.prems"(3))
        show "\<forall>k<h + 1. \<not> f k" by (rule below)
        show "j < n \<longrightarrow> f j" by (rule "1.prems"(5))
      qed
      with eq h show ?thesis by simp
    qed
  qed
qed

lemma Search_first:
  assumes "\<forall>a b. a \<le> b \<and> b < n \<and> f a \<longrightarrow> f b"
  shows "Search n f \<le> n \<and> (Search n f < n \<longrightarrow> f (Search n f)) \<and> (\<forall>k < Search n f. \<not> f k)"
  using SearchLoop_inv[OF assms, of 0 n] by (simp add: Search_def)


lemma timestamps_mono:
  assumes "sorted_wrt (<) ts"
  shows "\<forall>a b. a \<le> b \<and> b < length ts \<and> ts ! a > t \<longrightarrow> ts ! b > (t::real)"
proof (intro allI impI)
  fix a b assume h: "a \<le> b \<and> b < length ts \<and> ts ! a > t"
  show "ts ! b > t"
  proof (cases "a = b")
    case True
    with h show ?thesis by simp
  next
    case False
    with h have "a < b" by simp
    then have "ts ! a < ts ! b" using assms h sorted_wrt_nth_less by blast
    with h show ?thesis by simp
  qed
qed

lemma Search_before:
  assumes "sorted_wrt (<) (ts :: real list)" and "ts \<noteq> []" and "t < ts ! 0"
  shows "Search (length ts) (\<lambda>i. ts ! i > t) = 0"
proof -
  note S = Search_first[OF timestamps_mono[OF assms(1), of t]]
  show ?thesis
  proof (rule ccontr)
    assume "Search (length ts) (\<lambda>i. ts ! i > t) \<noteq> 0"
    then have "0 < Search (length ts) (\<lambda>i. ts ! i > t)" by simp
    with S have "\<not> ts ! 0 > t" by blast
    with assms(3) show False by simp
  qed
qed

lemma Search_after:
  assumes "sorted_wrt (<) (ts :: real list)" and "ts \<noteq> []" and "last ts \<le> t"
  shows "Search (length ts) (\<lambda>i. ts ! i > t) = length ts"
proof -
  note S = Search_first[OF timestamps_mono[OF assms(1), of t]]
  show ?thesis
  proof (rule ccontr)
    assume "Search (length ts) (\<lambda>i. ts ! i > t) \<noteq> length ts"
    with S have lt: "Search (length ts) (\<lambda>i. ts ! i > t) < length ts" by simp
    with S have gt: "ts ! Search (length ts) (\<lambda>i. ts ! i > t) > t" by blast
    have "ts ! Search (length ts) (\<lambda>i. ts ! i > t) \<le> ts ! (length ts - 1)"
    proof (cases "Search (length ts) (\<lambda>i. ts ! i > t) = length ts - 1")
      case True
      then show ?thesis by simp
    next
      case False
      with lt have "Search (length ts) (\<lambda>i. ts ! i > t) < length ts - 1" by simp
      then have "ts ! Search (length ts) (\<lambda>i. ts ! i > t) < ts ! (length ts - 1)"
        using assms(1,2) sorted_wrt_nth_less[of "(<)" ts _ "length ts - 1"] by simp
      then show ?thesis by simp
    qed
    also have "ts ! (length ts - 1) = last ts" using assms(2) by (simp add: last_conv_nth)
    finally show False using gt assms(3) by simp
  qed
qed

lemma Search_between:
  assumes "sorted_wrt (<) (ts :: real list)" and "k + 1 < length ts" and "ts ! k \<le> t"
    and "t < ts ! (k + 1)"
  shows "Search (length ts) (\<lambda>i. ts ! i > t) = k + 1"
proof -
  note S = Search_first[OF timestamps_mono[OF assms(1), of t]]
  let ?s = "Search (length ts) (\<lambda>i. ts ! i > t)"
  have le: "?s \<le> k + 1"
  proof (rule ccontr)
    assume "\<not> ?s \<le> k + 1"
    then have "k + 1 < ?s" by simp
    with S have "\<not> ts ! (k + 1) > t" by blast
    with assms(4) show False by simp
  qed
  have ge: "k < ?s"
  proof (rule ccontr)
    assume "\<not> k < ?s"
    then have sk: "?s \<le> k" by simp
    with assms(2) have "?s < length ts" by simp
    with S have gt: "ts ! ?s > t" by blast
    have "ts ! ?s \<le> ts ! k"
    proof (cases "?s = k")
      case True
      then show ?thesis by simp
    next
      case False
      with sk have "?s < k" by simp
      then have "ts ! ?s < ts ! k"
        using assms(1,2) sorted_wrt_nth_less[of "(<)" ts ?s k] by simp
      then show ?thesis by simp
    qed
    with gt assms(3) show False by simp
  qed
  from le ge show ?thesis by simp
qed

lemma slice_ok: "a \<le> b \<Longrightarrow> b \<le> length xs \<Longrightarrow> slice xs a b = Inr (take (b - a) (drop a xs))"
  by (simp add: slice_def)

lemma interpolate_before:
  assumes "sorted_wrt (<) (Timestamps c)" and "Timestamps c \<noteq> []"
    and "(componentCount c) \<le> length (Values c)"
    and "t < Timestamps c ! 0"
  shows "interpolateKeyframes slerp c t
         = Inr (take (componentCount c) (Values c))"
  using assms Search_before[OF assms(1,2,4)]
  by (simp add: interpolateKeyframes_def Let_def slice_def)

lemma interpolate_after:
  assumes "sorted_wrt (<) (Timestamps c)" and "Timestamps c \<noteq> []"
    and "(componentCount c) * length (Timestamps c) \<le> length (Values c)"
    and "last (Timestamps c) \<le> t"
  shows "interpolateKeyframes slerp c t
         = Inr (take (componentCount c)
                  (drop ((length (Timestamps c) - 1) * (componentCount c))
                     (Values c)))"
proof -
  define n where "n = length (Timestamps c)"
  define m :: nat where "m = (componentCount c)"
  have n: "0 < n" using assms(2) by (simp add: n_def)
  have "(n - 1) * m + m = n * m" using n by (cases n) simp_all
  then have le: "(n - 1) * m + m \<le> length (Values c)"
    using assms(3) by (simp add: n_def m_def mult.commute)
  have s: "Search (length (Timestamps c)) (\<lambda>i. Timestamps c ! i > t) = n"
    using Search_after[OF assms(1,2,4)] by (simp add: n_def)
  show ?thesis
    using n le s assms(2) unfolding n_def m_def
    by (simp add: interpolateKeyframes_def Let_def slice_def)
qed

lemma interpolate_between:
  assumes "sorted_wrt (<) (Timestamps c)"
    and "(componentCount c) * length (Timestamps c) \<le> length (Values c)"
    and "k + 1 < length (Timestamps c)"
    and "Timestamps c ! k \<le> t" and "t < Timestamps c ! (k + 1)"
  shows "interpolateKeyframes slerp c t
         = Inr (blendKeyframes slerp c (componentCount c)
                  (k * (componentCount c))
                  ((k + 1) * (componentCount c))
                  (clamp01 ((t - Timestamps c ! k) / (Timestamps c ! (k + 1) - Timestamps c ! k))))"
proof -
  define n where "n = length (Timestamps c)"
  define m :: nat where "m = (componentCount c)"
  have s: "Search (length (Timestamps c)) (\<lambda>i. Timestamps c ! i > t) = k + 1"
    using Search_between[OF assms(1,3,4,5)] .
  have "(k + 1) * m + m = (k + 2) * m" by (simp add: algebra_simps)
  also have "\<dots> \<le> n * m" using assms(3) by (intro mult_le_mono1) (simp add: n_def)
  finally have le: "(k + 1) * m + m \<le> length (Values c)"
    using assms(2) by (simp add: n_def m_def mult.commute)
  have ne: "length (Timestamps c) \<noteq> 0" "k + 1 \<noteq> length (Timestamps c)" using assms(3) by auto
  show ?thesis
    using le s ne unfolding n_def m_def
    by (simp add: interpolateKeyframes_def Let_def)
qed


lemma timestamps_cases:
  assumes "sorted_wrt (<) (ts :: real list)" and "ts \<noteq> []"
  shows "t < ts ! 0 \<or> last ts \<le> t \<or> (\<exists>k. k + 1 < length ts \<and> ts ! k \<le> t \<and> t < ts ! (k + 1))"
proof (cases "t < ts ! 0 \<or> last ts \<le> t")
  case True
  then show ?thesis by blast
next
  case False
  note S = Search_first[OF timestamps_mono[OF assms(1), of t]]
  let ?s = "Search (length ts) (\<lambda>i. ts ! i > t)"
  have l: "last ts = ts ! (length ts - 1)" using assms(2) by (simp add: last_conv_nth)
  have s0: "?s \<noteq> 0"
  proof
    assume z: "?s = 0"
    then have "?s < length ts" using assms(2) by simp
    with S have "ts ! ?s > t" by blast
    with z False show False by simp
  qed
  have sn: "?s \<noteq> length ts"
  proof
    assume e: "?s = length ts"
    have "length ts - 1 < ?s" using e assms(2) by simp
    with S have "\<not> ts ! (length ts - 1) > t" by blast
    with False l show False by simp
  qed
  from sn S have lt: "?s < length ts" by simp
  with S have gt: "t < ts ! ?s" by blast
  have "?s - 1 < ?s" using s0 by simp
  with S have "\<not> ts ! (?s - 1) > t" by blast
  then have le: "ts ! (?s - 1) \<le> t" by simp
  have "(?s - 1) + 1 < length ts \<and> ts ! (?s - 1) \<le> t \<and> t < ts ! ((?s - 1) + 1)"
    using s0 lt gt le by simp
  then show ?thesis by blast
qed

lemma take3_nth: "3 \<le> length xs \<Longrightarrow> take 3 xs = [xs ! 0, xs ! Suc 0, xs ! Suc (Suc 0)]"
  by (intro nth_equalityI) (auto simp: nth_Cons' less_Suc_eq numeral_3_eq_3)

lemma interpolate_at_first:
  assumes "sorted_wrt (<) (Timestamps c)" and "Timestamps c \<noteq> []"
    and "componentCount c * length (Timestamps c) \<le> length (Values c)"
  shows "interpolateKeyframes slerp c (Timestamps c ! 0)
         = Inr (if Path c = ''rotation'' \<and> 1 < length (Timestamps c)
                then (let qr = slerp (quatAt (Values c) 0) (quatAt (Values c) 4) 0
                      in [fst (V qr), fst (snd (V qr)), snd (snd (V qr)), W qr])
                else take (componentCount c) (Values c))"
proof (cases "1 < length (Timestamps c)")
  case False
  with assms(2) have one: "length (Timestamps c) = 1" by (cases "Timestamps c") auto
  then have "last (Timestamps c) = Timestamps c ! 0" using assms(2) by (simp add: last_conv_nth)
  then have "last (Timestamps c) \<le> Timestamps c ! 0" by simp
  from interpolate_after[OF assms this, of slerp] one False show ?thesis by simp
next
  case True
  have lt: "Timestamps c ! 0 < Timestamps c ! 1"
    using assms(1) True sorted_wrt_nth_less[of "(<)" "Timestamps c" 0 1] by simp
  have k: "0 + 1 < length (Timestamps c)" using True by simp
  have a: "Timestamps c ! 0 \<le> Timestamps c ! 0" by simp
  have b: "Timestamps c ! 0 < Timestamps c ! (0 + 1)" using lt by simp
  note I = interpolate_between[OF assms(1,3) k a b, of slerp]
  show ?thesis
  proof (cases "Path c = ''rotation''")
    case rot: True
    with I True show ?thesis
      by (simp add: blendKeyframes_def componentCount_def clamp01_def Let_def)
  next
    case nrot: False
    have "3 * 2 \<le> 3 * length (Timestamps c)" using True by simp
    with assms(3) nrot have "3 \<le> length (Values c)" by (simp add: componentCount_def)
    with I nrot True show ?thesis
      by (simp add: blendKeyframes_def componentCount_def clamp01_def Let_def take3_nth upt_rec)
  qed
qed

lemma take4_nth:
  "4 \<le> length xs \<Longrightarrow> take 4 xs = [xs ! 0, xs ! 1, xs ! 2, xs ! 3]"
  by (intro nth_equalityI) (auto simp: nth_Cons' less_Suc_eq numeral_eq_Suc)

lemma interpolate_upto_first:
  assumes "sorted_wrt (<) (Timestamps c)" and "Timestamps c \<noteq> []"
    and "componentCount c * length (Timestamps c) \<le> length (Values c)"
    and "t \<le> Timestamps c ! 0"
    and "Path c = ''rotation'' \<and> 1 < length (Timestamps c) \<and> t = Timestamps c ! 0 \<longrightarrow>
           slerp (quatAt (Values c) 0) (quatAt (Values c) 4) 0 = quatAt (Values c) 0"
  shows "interpolateKeyframes slerp c t = Inr (take (componentCount c) (Values c))"
proof (cases "t < Timestamps c ! 0")
  case True
  have "1 \<le> length (Timestamps c)" using assms(2) by (cases "Timestamps c") simp_all
  then have "componentCount c * 1 \<le> componentCount c * length (Timestamps c)"
    by (rule mult_le_mono2)
  then have "componentCount c \<le> componentCount c * length (Timestamps c)"
    by (simp only: mult_1_right)
  then have "componentCount c \<le> length (Values c)" using assms(3) by (rule le_trans)
  from interpolate_before[OF assms(1,2) this True] show ?thesis .
next
  case False
  with assms(4) have t: "t = Timestamps c ! 0" by simp
  note I = interpolate_at_first[OF assms(1,2,3), of slerp]
  show ?thesis
  proof (cases "Path c = ''rotation'' \<and> 1 < length (Timestamps c)")
    case False
    then have "interpolateKeyframes slerp c (Timestamps c ! 0)
        = Inr (take (componentCount c) (Values c))"
      unfolding I by (simp only: if_False simp_thms)
    with t show ?thesis by simp
  next
    case True
    with assms(5) t
    have q: "slerp (quatAt (Values c) 0) (quatAt (Values c) 4) 0 = quatAt (Values c) 0" by simp
    have "4 * 2 \<le> 4 * length (Timestamps c)" using True by simp
    with assms(3) True have "4 \<le> length (Values c)" by (simp add: componentCount_def)
    from take4_nth[OF this] have "take (componentCount c) (Values c)
        = [Values c ! 0, Values c ! 1, Values c ! 2, Values c ! 3]"
      using True by (simp add: componentCount_def)
    moreover from True have "interpolateKeyframes slerp c (Timestamps c ! 0)
        = Inr (let qr = slerp (quatAt (Values c) 0) (quatAt (Values c) 4) 0
               in [fst (V qr), fst (snd (V qr)), snd (snd (V qr)), W qr])"
      unfolding I by (simp only: if_True simp_thms)
    ultimately show ?thesis using t q by (simp add: quatAt_def Let_def numeral_2_eq_2)
  qed
qed

section \<open>Properties of the scene graph, the skin resolver and the loader\<close>

lemma parentChain_nonempty: "parentChain r i xs \<Longrightarrow> xs \<noteq> [] \<and> last xs = i"
  by (induction rule: parentChain.induct) auto

lemma getGlobal_chain:
  "parentChain r i xs \<Longrightarrow>
   getGlobalNodeTransform r i
   = Some (Inr (foldl Mul4 (getNodeTransformMatrix r (hd xs)) (map (getNodeTransformMatrix r) (tl xs))))"
proof (induction rule: parentChain.induct)
  case (root i r)
  then show ?case by (subst getGlobalNodeTransform.simps) simp
next
  case (step i r xs)
  from step.hyps(5) have ne: "xs \<noteq> []" by (simp add: parentChain_nonempty)
  show ?case
    using step.hyps(1-4) ne by (subst getGlobalNodeTransform.simps) (simp add: step.IH)
qed

lemma chainEnds_returns: "chainEnds r i \<Longrightarrow> \<exists>y. getGlobalNodeTransform r i = Some y"
proof (induction rule: chainEnds.induct)
  case (outside i r)
  then show ?case by (subst getGlobalNodeTransform.simps) auto
next
  case (unlisted i r)
  then show ?case by (subst getGlobalNodeTransform.simps) auto
next
  case (root i r)
  then show ?case by (subst getGlobalNodeTransform.simps) auto
next
  case (step i r)
  then obtain y where "getGlobalNodeTransform r (NodeParents r ! nat i) = Some y" by blast
  with step.hyps(1-4) show ?case
    by (subst getGlobalNodeTransform.simps) (auto split: sum.splits)
qed

lemma returns_chainEnds:
  assumes "getGlobalNodeTransform r i = Some y"
  shows "chainEnds r i"
proof (rule getGlobalNodeTransform.raw_induct[where P = "\<lambda>r i y. chainEnds r i", OF _ assms],
    goal_cases)
  case (1 f r i y)
  show ?case
  proof (cases "i < 0 \<or> i \<ge> int (length (NodeTransforms r))")
    case True
    then show ?thesis by (rule chainEnds.outside)
  next
    case valid: False
    show ?thesis
    proof (cases "nat i \<ge> length (NodeParents r)")
      case True
      with valid show ?thesis by (auto intro: chainEnds.unlisted)
    next
      case listed: False
      show ?thesis
      proof (cases "NodeParents r ! nat i \<ge> 0")
        case False
        with valid listed show ?thesis by (auto intro: chainEnds.root)
      next
        case True
        have "f r (NodeParents r ! nat i) \<noteq> None"
        proof
          assume "f r (NodeParents r ! nat i) = None"
          with valid listed True "1"(2) show False by simp
        qed
        then obtain z where "f r (NodeParents r ! nat i) = Some z" by blast
        then have "chainEnds r (NodeParents r ! nat i)" by (rule "1"(1))
        with valid listed True show ?thesis by (auto intro: chainEnds.step)
      qed
    qed
  qed
qed

lemma ancestor_first:
  "ancestor r i j \<Longrightarrow>
   0 \<le> i \<and> i < int (length (NodeTransforms r)) \<and> nat i < length (NodeParents r)
   \<and> 0 \<le> NodeParents r ! nat i
   \<and> (j = NodeParents r ! nat i \<or> ancestor r (NodeParents r ! nat i) j)"
proof (induction rule: ancestor.induct)
  case (parent i r)
  then show ?case by simp
next
  case (further r i j)
  then show ?case by (auto intro: ancestor.parent ancestor.further)
qed

lemma chainEnds_no_cycle: "chainEnds r i \<Longrightarrow> \<not> ancestor r i i"
proof (induction rule: chainEnds.induct)
  case (outside i r)
  then show ?case using ancestor_first[of r i i] by auto
next
  case (unlisted i r)
  then show ?case using ancestor_first[of r i i] by auto
next
  case (root i r)
  then show ?case using ancestor_first[of r i i] by auto
next
  case (step i r)
  show ?case
  proof
    assume a: "ancestor r i i"
    from ancestor_first[OF a]
    have "i = NodeParents r ! nat i \<or> ancestor r (NodeParents r ! nat i) i" by simp
    then show False
    proof
      assume "i = NodeParents r ! nat i"
      with a step.IH show False by simp
    next
      assume "ancestor r (NodeParents r ! nat i) i"
      then have "ancestor r (NodeParents r ! nat i) (NodeParents r ! nat i)"
        using step.hyps(1-4) by (rule ancestor.further)
      with step.IH show False by simp
    qed
  qed
qed

lemma returns_iff_chainEnds: "(getGlobalNodeTransform r i \<noteq> None) = chainEnds r i"
  using chainEnds_returns[of r i] returns_chainEnds[of r i] by auto

lemma cycle_diverges: "ancestor r i i \<Longrightarrow> getGlobalNodeTransform r i = None"
  using chainEnds_no_cycle[of r i] returns_iff_chainEnds[of r i] by blast

lemma parentChain_chainEnds: "parentChain r i xs \<Longrightarrow> chainEnds r i"
  by (induction rule: parentChain.induct) (auto intro: chainEnds.root chainEnds.step)

lemma parentChain_valid:
  "parentChain r i xs \<Longrightarrow> \<forall>j \<in> set xs. 0 \<le> j \<and> j < int (length (NodeTransforms r))"
  by (induction rule: parentChain.induct) auto

lemma parentChain_root:
  "parentChain r i xs \<Longrightarrow> NodeParents r ! nat (hd xs) < 0"
proof (induction rule: parentChain.induct)
  case (root i r)
  then show ?case by simp
next
  case (step i r xs)
  from step.hyps(5) have "xs \<noteq> []" by (simp add: parentChain_nonempty)
  with step.IH show ?case by simp
qed

lemma Mul4_Ident4_right: "Mul4 m Ident4 = m"
  by (cases m rule: prod_cases4; cases rule: prod_cases4; simp add: Mul4_def Mul4x1_def Ident4_def)


lemma boneLoop_fold:
  "\<forall>i \<in> set js. i < length (InverseBindMatrices skin) \<and> i < length bm
       \<and> getGlobalNodeTransform r (Joints skin ! i) = Some (Inr (G i)) \<Longrightarrow>
   boneLoop r skin js bm
   = Some (Inr (fold (\<lambda>i b. b[i := Mul4 (G i) (InverseBindMatrices skin ! i)]) js bm))"
  by (induction js arbitrary: bm) auto

lemma computeBoneMatrices_ok:
  assumes k: "0 \<le> k" "k < int (length (Skins r))"
    and ibm: "length (Joints (Skins r ! nat k)) \<le> length (InverseBindMatrices (Skins r ! nat k))"
    and g: "\<forall>i < length (Joints (Skins r ! nat k)).
              getGlobalNodeTransform r (Joints (Skins r ! nat k) ! i) = Some (Inr (G i))"
  shows "computeBoneMatrices r k
         = Some (Inr (r\<lparr>BoneMatrices :=
              fold (\<lambda>i b. b[i := Mul4 (G i) (InverseBindMatrices (Skins r ! nat k) ! i)])
                [0..<length (Joints (Skins r ! nat k))]
                (if length (BoneMatrices r) < length (Joints (Skins r ! nat k))
                 then replicate (length (Joints (Skins r ! nat k))) zeroMat4
                 else BoneMatrices r)\<rparr>))"
proof -
  define skin where "skin = Skins r ! nat k"
  define bm where "bm = (if length (BoneMatrices r) < length (Joints skin)
                 then replicate (length (Joints skin)) zeroMat4 else BoneMatrices r)"
  have lb: "length (Joints skin) \<le> length bm" by (simp add: bm_def)
  have "\<forall>i \<in> set [0..<length (Joints skin)]. i < length (InverseBindMatrices skin) \<and> i < length bm
       \<and> getGlobalNodeTransform r (Joints skin ! i) = Some (Inr (G i))"
    using ibm g lb by (auto simp: skin_def)
  from boneLoop_fold[OF this]
  have "boneLoop r skin [0..<length (Joints skin)] bm
        = Some (Inr (fold (\<lambda>i b. b[i := Mul4 (G i) (InverseBindMatrices skin ! i)])
                       [0..<length (Joints skin)] bm))" .
  then show ?thesis
    using k unfolding skin_def bm_def by (simp add: computeBoneMatrices_def Let_def)
qed

lemma setChildren_Inr:
  "setChildren p cs ps = Inr ps' \<Longrightarrow>
   length ps' = length ps
   \<and> (\<forall>c < length ps. ps' ! c = ps ! c \<or> (ps' ! c = p \<and> int c \<in> set cs))"
proof (induction cs arbitrary: ps)
  case Nil
  then show ?case by simp
next
  case (Cons a cs)
  from Cons.prems have a: "0 \<le> a" "a < int (length ps)"
    and rest: "setChildren p cs (ps[nat a := p]) = Inr ps'"
    by (auto split: if_splits)
  from Cons.IH[OF rest] have l: "length ps' = length ps"
    and n: "\<forall>c < length ps. ps' ! c = (ps[nat a := p]) ! c \<or> (ps' ! c = p \<and> int c \<in> set cs)"
    by simp_all
  have "\<forall>c < length ps. ps' ! c = ps ! c \<or> (ps' ! c = p \<and> int c \<in> set (a # cs))"
  proof (intro allI impI)
    fix c assume c: "c < length ps"
    show "ps' ! c = ps ! c \<or> (ps' ! c = p \<and> int c \<in> set (a # cs))"
    proof (cases "c = nat a")
      case True
      with a c n show ?thesis by auto
    next
      case False
      with c n show ?thesis by auto
    qed
  qed
  with l show ?case by simp
qed

lemma parentsLoop_Inr:
  "parentsLoop k nodes ps = Inr ps' \<Longrightarrow>
   length ps' = length ps
   \<and> (\<forall>c < length ps. ps' ! c = ps ! c
         \<or> (\<exists>q < length nodes. ps' ! c = int (k + q) \<and> int c \<in> set (node_Children (nodes ! q))))"
proof (induction nodes arbitrary: k ps)
  case Nil
  then show ?case by simp
next
  case (Cons node nodes)
  from Cons.prems obtain ps1 where
    s: "setChildren (int k) (node_Children node) ps = Inr ps1"
    and rest: "parentsLoop (k + 1) nodes ps1 = Inr ps'"
    by (auto split: sum.splits)
  note S = setChildren_Inr[OF s]
  note R = Cons.IH[OF rest]
  have l: "length ps' = length ps" using S R by simp
  have "\<forall>c < length ps. ps' ! c = ps ! c
         \<or> (\<exists>q < length (node # nodes). ps' ! c = int (k + q)
               \<and> int c \<in> set (node_Children ((node # nodes) ! q)))"
  proof (intro allI impI)
    fix c assume c: "c < length ps"
    then have c1: "c < length ps1" using S by simp
    from R c1 have "ps' ! c = ps1 ! c
         \<or> (\<exists>q < length nodes. ps' ! c = int (k + 1 + q) \<and> int c \<in> set (node_Children (nodes ! q)))"
      by blast
    then show "ps' ! c = ps ! c
         \<or> (\<exists>q < length (node # nodes). ps' ! c = int (k + q)
               \<and> int c \<in> set (node_Children ((node # nodes) ! q)))"
    proof
      assume e: "ps' ! c = ps1 ! c"
      from S c have "ps1 ! c = ps ! c \<or> (ps1 ! c = int k \<and> int c \<in> set (node_Children node))"
        by blast
      then show ?thesis
      proof
        assume "ps1 ! c = ps ! c"
        with e show ?thesis by simp
      next
        assume "ps1 ! c = int k \<and> int c \<in> set (node_Children node)"
        with e have "0 < length (node # nodes) \<and> ps' ! c = int (k + 0)
               \<and> int c \<in> set (node_Children ((node # nodes) ! 0))" by simp
        then show ?thesis by blast
      qed
    next
      assume "\<exists>q < length nodes. ps' ! c = int (k + 1 + q) \<and> int c \<in> set (node_Children (nodes ! q))"
      then obtain q where q: "q < length nodes" "ps' ! c = int (k + 1 + q)"
        "int c \<in> set (node_Children (nodes ! q))" by blast
      then have "Suc q < length (node # nodes) \<and> ps' ! c = int (k + Suc q)
               \<and> int c \<in> set (node_Children ((node # nodes) ! Suc q))" by simp
      then show ?thesis by blast
    qed
  qed
  with l show ?case by simp
qed

lemma buildNodeParents_Inr:
  assumes "buildNodeParents doc = Inr ps"
  shows "length ps = length (doc_Nodes doc)
   \<and> (\<forall>c < length ps. ps ! c = - 1
         \<or> (0 \<le> ps ! c \<and> ps ! c < int (length (doc_Nodes doc))
             \<and> int c \<in> set (node_Children (doc_Nodes doc ! nat (ps ! c)))))"
proof -
  note P = parentsLoop_Inr[OF assms[unfolded buildNodeParents_def]]
  have l: "length ps = length (doc_Nodes doc)" using P by simp
  have "\<forall>c < length ps. ps ! c = - 1
         \<or> (0 \<le> ps ! c \<and> ps ! c < int (length (doc_Nodes doc))
             \<and> int c \<in> set (node_Children (doc_Nodes doc ! nat (ps ! c))))"
  proof (intro allI impI)
    fix c assume c: "c < length ps"
    with P l have "ps ! c = replicate (length (doc_Nodes doc)) (- 1) ! c
         \<or> (\<exists>q < length (doc_Nodes doc). ps ! c = int (0 + q)
               \<and> int c \<in> set (node_Children (doc_Nodes doc ! q)))" by simp
    then show "ps ! c = - 1
         \<or> (0 \<le> ps ! c \<and> ps ! c < int (length (doc_Nodes doc))
             \<and> int c \<in> set (node_Children (doc_Nodes doc ! nat (ps ! c))))"
    proof
      assume "ps ! c = replicate (length (doc_Nodes doc)) (- 1) ! c"
      with c l show ?thesis by simp
    next
      assume "\<exists>q < length (doc_Nodes doc). ps ! c = int (0 + q)
               \<and> int c \<in> set (node_Children (doc_Nodes doc ! q))"
      then obtain q where "q < length (doc_Nodes doc)" "ps ! c = int q"
        "int c \<in> set (node_Children (doc_Nodes doc ! q))" by auto
      then show ?thesis by simp
    qed
  qed
  with l show ?thesis by simp
qed

lemma initBoneMatrices_fields:
  "Skins (initBoneMatrices r) = Skins r \<and> Meshes (initBoneMatrices r) = Meshes r
   \<and> Animations (initBoneMatrices r) = Animations r
   \<and> NodeParents (initBoneMatrices r) = NodeParents r
   \<and> NodeTransforms (initBoneMatrices r) = NodeTransforms r
   \<and> BaseTransforms (initBoneMatrices r) = BaseTransforms r"
  by (simp add: initBoneMatrices_def)

lemma initBoneMatrices_playback:
  "CurrentAnim (initBoneMatrices r) = CurrentAnim r
   \<and> AnimStartTime (initBoneMatrices r) = AnimStartTime r
   \<and> AnimLoop (initBoneMatrices r) = AnimLoop r"
  by (simp add: initBoneMatrices_def)

lemma LoadGLB_Inr:
  assumes "LoadGLB r (Some doc) = Inr r'"
  shows "buildNodeParents doc = Inr (NodeParents r')
     \<and> NodeTransforms r' = map nodeTransform (doc_Nodes doc)
     \<and> BaseTransforms r' = map nodeTransform (doc_Nodes doc)
     \<and> skinsLoop doc (doc_Skins doc) (Skins r) = Inr (Skins r')
     \<and> animationsLoop doc (doc_Animations doc) (Animations r) = Inr (Animations r')
     \<and> CurrentAnim r' = CurrentAnim r"
proof -
  from assms obtain parents where p: "buildNodeParents doc = Inr parents"
    by (auto simp: LoadGLB_def split: sum.splits)
  from assms p obtain skins where
    s: "skinsLoop doc (doc_Skins doc) (Skins r) = Inr skins"
    by (auto simp: LoadGLB_def Let_def split: sum.splits)
  define r3 where "r3 = initBoneMatrices (r\<lparr>NodeParents := parents,
                          NodeTransforms := map nodeTransform (doc_Nodes doc),
                          BaseTransforms := map nodeTransform (doc_Nodes doc),
                          Skins := skins\<rparr>)"
  from assms p s obtain meshes anims where
    r': "r' = r3\<lparr>Meshes := meshes, Animations := anims\<rparr>"
    and a: "animationsLoop doc (doc_Animations doc) (Animations r3) = Inr anims"
    by (auto simp: LoadGLB_def Let_def r3_def split: sum.splits if_splits)
  have f: "Animations r3 = Animations r" "Skins r3 = skins" "NodeParents r3 = parents"
    "NodeTransforms r3 = map nodeTransform (doc_Nodes doc)"
    "BaseTransforms r3 = map nodeTransform (doc_Nodes doc)"
    "CurrentAnim r3 = CurrentAnim r"
    by (simp_all add: r3_def initBoneMatrices_fields initBoneMatrices_playback)
  from r' p s a f show ?thesis by simp
qed




lemmas mat_defs = Mul4_def Mul4x1_def Ident4_def Translate3D_def Scale3D_def QuatMat4_def
  QuatIdent_def

lemma exRig_chain0: "parentChain exRig 0 [0]"
  by (rule parentChain.root) (simp_all add: exRig_def)

lemma exRig_chain1: "parentChain exRig 1 ([0] @ [1])"
proof (rule parentChain.step)
  show "parentChain exRig (NodeParents exRig ! nat 1) [0]"
    using exRig_chain0 by (simp add: exRig_def)
qed (simp_all add: exRig_def)

lemma exRig_local0: "getNodeTransformMatrix exRig 0 = exRigGlobal0"
  by (simp add: getNodeTransformMatrix_def exRig_def exRigGlobal0_def mat_defs)

lemma exRig_local1: "getNodeTransformMatrix exRig 1 = Translate3D 0 3 0"
  by (simp add: getNodeTransformMatrix_def exRig_def mat_defs)

lemma exRig_product: "Mul4 exRigGlobal0 (Translate3D 0 3 0) = exRigGlobal1"
  by (simp add: exRigGlobal0_def exRigGlobal1_def mat_defs)

lemma exRig_global0: "getGlobalNodeTransform exRig 0 = Some (Inr exRigGlobal0)"
  using getGlobal_chain[OF exRig_chain0] by (simp add: exRig_local0)

lemma exRig_global1: "getGlobalNodeTransform exRig 1 = Some (Inr exRigGlobal1)"
  using getGlobal_chain[OF exRig_chain1] by (simp add: exRig_local0 exRig_local1 exRig_product)

lemmas load_defs = LoadGLB_def buildNodeParents_def nodeTransform_def loadSkin_def
  initBoneMatrices_def loadPrimitive_def Let_def

lemma exCyclic_load: "LoadGLB exEmpty (Some exCyclicDoc) = Inr exCyclicLoaded"
  by (simp add: load_defs exEmpty_def NewGLBRenderer_def exCyclicDoc_def exCyclicLoaded_def exTriangle_def
      exTriangleMesh_def exBase_def)



lemma exCyclic_ancestor: "ancestor exCyclicLoaded 0 0"
proof -
  have "ancestor exCyclicLoaded 0 (NodeParents exCyclicLoaded ! nat 0)"
    by (rule ancestor.parent) (simp_all add: exCyclicLoaded_def exEmpty_def NewGLBRenderer_def)
  then show ?thesis by (simp add: exCyclicLoaded_def exEmpty_def NewGLBRenderer_def)
qed

lemma getGlobal_no_panic:
  assumes "getGlobalNodeTransform r i = Some y"
  shows "length (NodeTransforms r) \<le> length (NodeParents r) \<longrightarrow> \<not> isl y"
proof (rule getGlobalNodeTransform.raw_induct[where
      P = "\<lambda>r i y. length (NodeTransforms r) \<le> length (NodeParents r) \<longrightarrow> \<not> isl y",
      OF _ assms], goal_cases)
  case (1 f r i y)
  show ?case
  proof
    assume len: "length (NodeTransforms r) \<le> length (NodeParents r)"
    show "\<not> isl y"
    proof (cases "i < 0 \<or> i \<ge> int (length (NodeTransforms r))")
      case True
      with "1"(2) have "y = Inr Ident4" by (simp split: if_splits)
      then show ?thesis by simp
    next
      case valid: False
      then have listed: "\<not> length (NodeParents r) \<le> nat i" using len by auto
      show ?thesis
      proof (cases "NodeParents r ! nat i \<ge> 0")
        case False
        with valid listed "1"(2) have "y = Inr (getNodeTransformMatrix r i)" by simp
        then show ?thesis by simp
      next
        case True
        have "f r (NodeParents r ! nat i) \<noteq> None"
        proof
          assume "f r (NodeParents r ! nat i) = None"
          with valid listed True "1"(2) show False by simp
        qed
        then obtain z where z: "f r (NodeParents r ! nat i) = Some z" by blast
        from "1"(1)[OF z] len have "\<not> isl z" by blast
        then obtain m where "z = Inr m" by (cases z) simp_all
        with z valid listed True "1"(2)
        have "y = Inr (Mul4 m (getNodeTransformMatrix r i))" by simp
        then show ?thesis by simp
      qed
    qed
  qed
qed
















section \<open>Properties of the states the renderer reaches\<close>

subsection \<open>The faults of a tick\<close>

lemma SearchLoop_bounds:
  "i \<le> j \<Longrightarrow> i \<le> SearchLoop f i j \<and> SearchLoop f i j \<le> j"
proof (induction f i j rule: SearchLoop.induct)
  case (1 f i j)
  show ?case
  proof (cases "i < j")
    case False
    with "1.prems" show ?thesis by (subst SearchLoop.simps, subst SearchLoop.simps) simp
  next
    case True
    define h where "h = (i + j) div 2"
    have hb: "i \<le> h" "h < j" using True by (simp_all add: h_def)
    show ?thesis
    proof (cases "f h")
      case False
      have e: "SearchLoop f i j = SearchLoop f (h + 1) j"
        using True False by (subst SearchLoop.simps) (simp add: h_def Let_def)
      have "h + 1 \<le> SearchLoop f (h + 1) j \<and> SearchLoop f (h + 1) j \<le> j"
        using "1.IH"(1)[OF True h_def False] hb by simp
      with e hb show ?thesis by simp
    next
      case t: True
      have e: "SearchLoop f i j = SearchLoop f i h"
        using True t by (subst SearchLoop.simps) (simp add: h_def Let_def)
      have "i \<le> SearchLoop f i h \<and> SearchLoop f i h \<le> h"
        using "1.IH"(2)[OF True h_def] t hb by simp
      with e hb show ?thesis by simp
    qed
  qed
qed

lemma Search_le: "Search n f \<le> n"
  using SearchLoop_bounds[of 0 n f] by (simp add: Search_def)

lemma interpolateKeyframes_Inl:
  assumes "interpolateKeyframes slerp c t = Inl p"
  shows "p = SliceBoundsOutOfRange
     \<and> length (Values c) < (length (Timestamps c) - 1) * componentCount c"
proof -
  define count where "count = length (Timestamps c)"
  define comps where "comps = componentCount c"
  define idx where "idx = Search count (\<lambda>i. Timestamps c ! i > t)"
  have le: "idx \<le> count" unfolding idx_def by (rule Search_le)
  have ne: "count \<noteq> 0" using assms by (auto simp: interpolateKeyframes_def count_def)
  have i0: "idx \<noteq> 0"
  proof
    assume "idx = 0"
    with assms ne show False
      by (auto simp: interpolateKeyframes_def Let_def slice_def count_def[symmetric]
          comps_def[symmetric] idx_def[symmetric] split: if_splits)
  qed
  have ic: "idx \<noteq> count"
  proof
    assume "idx = count"
    with assms ne i0 show False
      by (auto simp: interpolateKeyframes_def Let_def slice_def count_def[symmetric]
          comps_def[symmetric] idx_def[symmetric] split: if_splits)
  qed
  from assms ne i0 ic have s: "slice (Values c) ((idx - 1) * comps) ((idx - 1) * comps + comps) = Inl p"
    by (auto simp: interpolateKeyframes_def Let_def count_def[symmetric]
          comps_def[symmetric] idx_def[symmetric] split: if_splits)
  then have p: "p = SliceBoundsOutOfRange" and l: "length (Values c) < (idx - 1) * comps + comps"
    by (auto simp: slice_def split: if_splits)
  have e1: "(idx - 1) * comps + comps = idx * comps" using i0 by (cases idx) simp_all
  have "idx \<le> count - 1" using le ic by simp
  then have e2: "idx * comps \<le> (count - 1) * comps" by (rule mult_le_mono1)
  from l e1 e2 have "length (Values c) < (count - 1) * comps" by linarith
  with p show ?thesis unfolding count_def comps_def by blast
qed

lemma applyChannel_Inl:
  assumes "applyChannel slerp c e nts = Inl p"
  shows "p = SliceBoundsOutOfRange
     \<and> length (Values c) < (length (Timestamps c) - 1) * componentCount c"
proof -
  from assms have "interpolateKeyframes slerp c e = Inl p"
    by (auto simp: applyChannel_def Let_def split: if_splits sum.splits)
  then show ?thesis by (rule interpolateKeyframes_Inl)
qed

lemma applyChannels_Inl:
  assumes "applyChannels slerp cs e nts = Inl p"
  shows "p = SliceBoundsOutOfRange
     \<and> (\<exists>c \<in> set cs. length (Values c) < (length (Timestamps c) - 1) * componentCount c)"
  using assms
proof (induction cs arbitrary: nts)
  case Nil
  then show ?case by simp
next
  case (Cons c cs)
  show ?case
  proof (cases "applyChannel slerp c e nts")
    case (Inl q)
    with Cons.prems have "q = p" by simp
    with applyChannel_Inl[OF Inl] show ?thesis by simp
  next
    case (Inr n1)
    with Cons.prems have "applyChannels slerp cs e n1 = Inl p" by simp
    from Cons.IH[OF this] show ?thesis by simp
  qed
qed

lemma applyAnimation_Inl:
  assumes "applyAnimation slerp anim e r = Inl p"
  shows "(p = IndexOutOfRange \<and> length (BaseTransforms r) < length (NodeTransforms r))
     \<or> (p = SliceBoundsOutOfRange
        \<and> (\<exists>c \<in> set (Channels anim).
              length (Values c) < (length (Timestamps c) - 1) * componentCount c))"
proof (cases "length (NodeTransforms r) \<le> length (BaseTransforms r)")
  case False
  then have "resetToBase r = Inl IndexOutOfRange" by (simp add: resetToBase_panics)
  with assms False show ?thesis by (simp add: applyAnimation_def)
next
  case True
  from resetToBase_ok[OF True] assms
  have "applyChannels slerp (Channels anim) e (take (length (NodeTransforms r)) (BaseTransforms r)) = Inl p"
    by (auto simp: applyAnimation_def split: sum.splits)
  from applyChannels_Inl[OF this] show ?thesis by simp
qed

lemma UpdateAnimation_ticking_Inl:
  assumes "CurrentAnim r = Some anim"
    and "UpdateAnimation slerp r now = Inl p"
  shows "(p = IndexOutOfRange \<and> length (BaseTransforms r) < length (NodeTransforms r))
     \<or> (p = SliceBoundsOutOfRange
        \<and> (\<exists>c \<in> set (Channels anim).
              length (Values c) < (length (Timestamps c) - 1) * componentCount c))"
proof -
  from assms have "\<exists>e. applyAnimation slerp anim e r = Inl p"
    by (auto simp: UpdateAnimation_def Let_def split: if_splits)
  then obtain e where "applyAnimation slerp anim e r = Inl p" by blast
  then show ?thesis by (rule applyAnimation_Inl)
qed

subsection \<open>Loaded clips write nothing\<close>

lemma pathString_not_written:
  "pathString p \<noteq> ''translation'' \<and> pathString p \<noteq> ''rotation'' \<and> pathString p \<noteq> ''scale''"
  by (cases p) (simp_all add: pathString_def)

lemma applyChannel_loaded:
  assumes "Path c = pathString p" and "applyChannel slerp c e nts = Inr nts'"
  shows "nts' = nts"
  using assms pathString_not_written[of p]
  by (auto simp: applyChannel_def Let_def split: if_splits sum.splits)

lemma applyChannels_loaded:
  assumes "\<forall>c \<in> set cs. \<exists>p. Path c = pathString p"
    and "applyChannels slerp cs e nts = Inr nts'"
  shows "nts' = nts"
  using assms
proof (induction cs arbitrary: nts)
  case Nil
  then show ?case by simp
next
  case (Cons c cs)
  from Cons.prems(2) obtain n1 where a: "applyChannel slerp c e nts = Inr n1"
    and b: "applyChannels slerp cs e n1 = Inr nts'"
    by (auto split: sum.splits)
  from Cons.prems(1) obtain p where "Path c = pathString p" by auto
  from applyChannel_loaded[OF this a] have "n1 = nts" .
  moreover from Cons.IH[OF _ b] Cons.prems(1) have "nts' = n1" by simp
  ultimately show ?case by simp
qed

lemma channelsLoop_paths:
  assumes "channelsLoop doc anim cs a = Inr a'" and "loadedClip a"
  shows "loadedClip a'"
  using assms
proof (induction cs arbitrary: a)
  case Nil
  then show ?case by simp
next
  case (Cons ch cs)
  show ?case
  proof (cases "chan_TargetNode ch")
    case None
    with Cons.prems have "channelsLoop doc anim cs a = Inr a'" by simp
    from Cons.IH[OF this Cons.prems(2)] show ?thesis .
  next
    case (Some node)
    have step: "\<And>d ts vs. loadedClip (a\<lparr>Duration := d, Channels := Channels a @
                  [\<lparr>NodeIndex = node, Path = pathString (chan_TargetPath ch),
                    Timestamps = ts, Values = vs\<rparr>]\<rparr>)"
      using Cons.prems(2) by (auto simp: loadedClip_def)
    have step': "\<And>ts vs. loadedClip (a\<lparr>Channels := Channels a @
                  [\<lparr>NodeIndex = node, Path = pathString (chan_TargetPath ch),
                    Timestamps = ts, Values = vs\<rparr>]\<rparr>)"
      using Cons.prems(2) by (auto simp: loadedClip_def)
    from Cons.prems(1) Some have "\<exists>a1. channelsLoop doc anim cs a1 = Inr a' \<and> loadedClip a1"
      using step step' Cons.prems(2) by (auto simp: Let_def split: if_splits sum.splits)
    then obtain a1 where s: "channelsLoop doc anim cs a1 = Inr a'" and "loadedClip a1" by blast
    from Cons.IH[OF s this(2)] show ?thesis .
  qed
qed

lemma animationsLoop_paths:
  assumes "animationsLoop doc as anims = Inr anims'"
    and "\<forall>n a. (n, a) \<in> set anims \<longrightarrow> loadedClip a"
  shows "\<forall>n a. (n, a) \<in> set anims' \<longrightarrow> loadedClip a"
  using assms
proof (induction as arbitrary: anims)
  case Nil
  then show ?case by simp
next
  case (Cons an rest)
  define name where "name = animationName an (length anims)"
  obtain a where
    c: "channelsLoop doc an (anim_Channels an) \<lparr>Name = name, Channels = [], Duration = 0\<rparr> = Inr a"
    and r: "animationsLoop doc rest
               (if length (Channels a) > 0 then AList.update name a anims else anims) = Inr anims'"
  proof (cases "channelsLoop doc an (anim_Channels an) \<lparr>Name = name, Channels = [], Duration = 0\<rparr>")
    case (Inl q)
    with Cons.prems(1) show ?thesis by (simp add: Let_def name_def)
  next
    case (Inr a)
    with Cons.prems(1) have "animationsLoop doc rest
               (if length (Channels a) > 0 then AList.update name a anims else anims) = Inr anims'"
      by (simp add: Let_def name_def split: if_splits)
    with Inr that show ?thesis by blast
  qed
  have "loadedClip \<lparr>Name = name, Channels = [], Duration = 0\<rparr>" by (simp add: loadedClip_def)
  from channelsLoop_paths[OF c this] have pa: "loadedClip a" .
  have "set (AList.update name a anims) \<subseteq> insert (name, a) (set anims)"
    by (induction anims) auto
  with pa Cons.prems(2)
  have "\<forall>n b. (n, b) \<in> set (if length (Channels a) > 0 then AList.update name a anims else anims)
          \<longrightarrow> loadedClip b"
    by (auto split: if_splits)
  from Cons.IH[OF r this] show ?case .
qed

lemma applyAnimation_loaded:
  assumes "NodeTransforms r = BaseTransforms r" and "loadedClip anim"
    and "applyAnimation slerp anim e r = Inr r'"
  shows "r' = r"
proof -
  note A = applyAnimation_Inr[OF assms(3)]
  from A assms(1) have "applyChannels slerp (Channels anim) e (NodeTransforms r) = Inr (NodeTransforms r')"
    by simp
  from applyChannels_loaded[OF _ this] assms(2) have "NodeTransforms r' = NodeTransforms r"
    by (simp add: loadedClip_def)
  with A show ?thesis by simp
qed

lemma UpdateAnimation_loaded:
  assumes "NodeTransforms r = BaseTransforms r"
    and "\<forall>a. CurrentAnim r = Some a \<longrightarrow> loadedClip a"
    and "UpdateAnimation slerp r now = Inr r'"
  shows "r' = r \<or> r' = r\<lparr>CurrentAnim := None\<rparr>"
proof (cases "CurrentAnim r")
  case None
  with assms(3) show ?thesis by (simp add: UpdateAnimation_def)
next
  case (Some anim)
  with assms(2) have ch: "loadedClip anim" by simp
  from assms(3) Some
  have "r' = r\<lparr>CurrentAnim := None\<rparr> \<or> (\<exists>e. applyAnimation slerp anim e r = Inr r')"
    by (auto simp: UpdateAnimation_def Let_def split: if_splits)
  with applyAnimation_loaded[OF assms(1) ch] show ?thesis by blast
qed

lemma reachable_inv:
  assumes "reachable r"
  shows "NodeTransforms r = BaseTransforms r
     \<and> (\<forall>n a. (n, a) \<in> set (Animations r) \<longrightarrow> loadedClip a)
     \<and> (\<forall>a. CurrentAnim r = Some a \<longrightarrow> loadedClip a)"
  using assms
proof (induction rule: reachable.induct)
  case created
  then show ?case by (simp add: NewGLBRenderer_def)
next
  case (loaded r doc r')
  note L = LoadGLB_Inr[OF loaded.hyps(2)]
  from L have a: "animationsLoop doc (doc_Animations doc) (Animations r) = Inr (Animations r')"
    by simp
  from animationsLoop_paths[OF a] loaded.IH L show ?case by simp
next
  case (played r name loop now r' e)
  show ?case
  proof (cases "map_of (Animations r) name")
    case None
    with played.hyps(2) have "r' = r" by (simp add: PlayAnimation_def)
    with played.IH show ?thesis by simp
  next
    case (Some anim)
    with played.hyps(2)
    have r': "r' = r\<lparr>CurrentAnim := Some anim, AnimStartTime := now, AnimLoop := loop\<rparr>"
      by (simp add: PlayAnimation_def)
    from Some have "(name, anim) \<in> set (Animations r)" by (rule map_of_SomeD)
    with played.IH have "loadedClip anim" by blast
    with played.IH show ?thesis by (simp add: r')
  qed
next
  case (stopped r r')
  from stopped.IH have "length (NodeTransforms (r\<lparr>CurrentAnim := None\<rparr>))
      \<le> length (BaseTransforms (r\<lparr>CurrentAnim := None\<rparr>))" by simp
  from resetToBase_ok[OF this] stopped.hyps(2) stopped.IH
  have "r' = r\<lparr>CurrentAnim := None, NodeTransforms := BaseTransforms r\<rparr>"
    by (simp add: StopAnimation_def)
  with stopped.IH show ?case by simp
next
  case (updated r slerp now r')
  from UpdateAnimation_loaded[OF _ _ updated.hyps(2)] updated.IH
  have "r' = r \<or> r' = r\<lparr>CurrentAnim := None\<rparr>" by blast
  then show ?case
  proof
    assume "r' = r"
    with updated.IH show ?thesis by simp
  next
    assume "r' = r\<lparr>CurrentAnim := None\<rparr>"
    with updated.IH show ?thesis by simp
  qed
next
  case (skinned r skinIndex r')
  from skinned.hyps(2) have "r' = r \<or> (\<exists>bm. r' = r\<lparr>BoneMatrices := bm\<rparr>)"
    by (auto simp: computeBoneMatrices_def Let_def split: if_splits option.splits sum.splits)
  then show ?case
  proof
    assume "r' = r"
    with skinned.IH show ?thesis by simp
  next
    assume "\<exists>bm. r' = r\<lparr>BoneMatrices := bm\<rparr>"
    then obtain bm where "r' = r\<lparr>BoneMatrices := bm\<rparr>" by blast
    with skinned.IH show ?thesis by simp
  qed
next
  case (textured r buffer width height stride r' calls)
  from textured.hyps(2) have "r' = r \<or> r' = r\<lparr>TextureWidth := width, TextureHeight := height\<rparr>"
    by (auto simp: UpdateTexture_def split: if_splits)
  then show ?case
  proof
    assume "r' = r"
    with textured.IH show ?thesis by simp
  next
    assume "r' = r\<lparr>TextureWidth := width, TextureHeight := height\<rparr>"
    with textured.IH show ?thesis by simp
  qed
next
  case (rotated r angle)
  then show ?case by simp
qed

lemma reachable_renderMeshes:
  "reachable r \<Longrightarrow> renderMeshes r ms = Some (Inr (r', calls)) \<Longrightarrow> reachable r'"
proof (induction ms arbitrary: r calls)
  case Nil
  then show ?case by simp
next
  case (Cons m ms)
  from Cons.prems(2) obtain r1 c1 c2 where
    a: "renderMesh r m = Some (Inr (r1, c1))" and b: "renderMeshes r1 ms = Some (Inr (r', c2))"
    by (auto split: option.splits sum.splits prod.splits)
  from a have "r1 = r \<or> computeBoneMatrices r (SkinIndex m) = Some (Inr r1)"
    by (auto simp: renderMesh_def Let_def split: if_splits option.splits sum.splits)
  with Cons.prems(1) have "reachable r1" by (auto intro: reachable.skinned)
  from Cons.IH[OF this b] show ?case .
qed

lemma reachable_Render:
  assumes "reachable r" and "Render slerp r now = Some (Inr (r', calls))"
  shows "reachable r'"
proof -
  from assms(2) obtain r1 where u: "UpdateAnimation slerp r now = Inr r1"
    and m: "renderMeshes r1 (Meshes r1) = Some (Inr (r', calls))"
    by (auto simp: Render_def split: sum.splits)
  from reachable.updated[OF assms(1) u] have "reachable r1" .
  from reachable_renderMeshes[OF this m] show ?thesis .
qed

subsection \<open>The loaded animations of the example\<close>

lemma f32_one: "float32frombits (uint32le [0, 0, 128, 63] 0) = 1"
  by (simp add: float32frombits_def uint32le_def Let_def)

lemma f32_two: "float32frombits (uint32le [0, 0, 0, 64] 0) = 2"
  by (simp add: float32frombits_def uint32le_def Let_def)

lemma f32_zero: "float32frombits (uint32le [0, 0, 0, 0] 0) = 0"
  by (simp add: float32frombits_def uint32le_def Let_def)

lemma exAnim_acc0: "readAccessorFloats exAnimDoc 0 = Inr (Inr [0, 1])"
  by (simp add: readAccessorFloats_def exAnimDoc_def elemCount_def Let_def upt_rec
      float32frombits_def uint32le_def)

lemma exAnim_acc1: "readAccessorFloats exAnimDoc 1 = Inr (Inr [0, 0, 0, 2, 0, 0])"
  by (simp add: readAccessorFloats_def exAnimDoc_def elemCount_def Let_def upt_rec
      float32frombits_def uint32le_def)

lemma exAnim_acc2: "readAccessorFloats exAnimDoc 2 = Inr (Inr [])"
  by (simp add: readAccessorFloats_def exAnimDoc_def elemCount_def Let_def)

lemma exAnim_load: "LoadGLB NewGLBRenderer (Some exAnimDoc) = Inr exAnimLoaded"
proof -
  have d: "doc_Nodes exAnimDoc = [\<lparr>node_Children = [], node_Mesh = Some 0, node_Skin = None,
                    node_Translation = (0, 0, 0), node_Rotation = (0, 0, 0, 1),
                    node_Scale = (1, 1, 1)\<rparr>]"
    "doc_Meshes exAnimDoc = [[exTriangle]]" "doc_Skins exAnimDoc = []"
    "doc_Animations exAnimDoc = [\<lparr>anim_Name = ''walk'',
          anim_Channels = [\<lparr>chan_TargetNode = Some 0, chan_TargetPath = TRSTranslation,
                            chan_Sampler = 0\<rparr>],
          anim_Samplers = [\<lparr>samp_Input = 0, samp_Output = 1\<rparr>]\<rparr>,
         \<lparr>anim_Name = ''cut'',
          anim_Channels = [\<lparr>chan_TargetNode = Some 0, chan_TargetPath = TRSScale,
                            chan_Sampler = 0\<rparr>],
          anim_Samplers = [\<lparr>samp_Input = 0, samp_Output = 2\<rparr>]\<rparr>]"
    by (simp_all add: exAnimDoc_def)
  show ?thesis
    by (simp add: load_defs d exAnim_acc0 exAnim_acc1 exAnim_acc2 NewGLBRenderer_def
        exAnimLoaded_def exTriangle_def exTriangleMesh_def exBase_def exWalk_def exCut_def
        animationName_def pathString_def)
qed

lemmas exAnim_defs = exAnimPlaying_def exCutPlaying_def exAnimLoaded_def NewGLBRenderer_def
  exWalk_def exCut_def exBase_def

lemma exAnim_play:
  "PlayAnimation exAnimLoaded ''walk'' False 0 = (exAnimPlaying, None)"
  by (simp add: PlayAnimation_def exAnim_defs)

lemma exCut_play:
  "PlayAnimation exAnimLoaded ''cut'' False 0 = (exCutPlaying, None)"
  by (simp add: PlayAnimation_def exAnim_defs)

lemma exAnimLoaded_reachable: "reachable exAnimLoaded"
  by (rule reachable.loaded[OF reachable.created exAnim_load])

lemma exAnimPlaying_reachable: "reachable exAnimPlaying"
  by (rule reachable.played[OF exAnimLoaded_reachable exAnim_play])

lemma exCutPlaying_reachable: "reachable exCutPlaying"
  by (rule reachable.played[OF exAnimLoaded_reachable exCut_play])

lemma exAnim_tick: "UpdateAnimation slerp exAnimPlaying (1 / 2) = Inr exAnimPlaying"
  by (simp add: exAnim_defs anim_defs)

lemma exAnim_last_tick:
  "UpdateAnimation slerp exAnimPlaying 2 = Inr (exAnimPlaying\<lparr>CurrentAnim := None\<rparr>)"
  by (simp add: exAnim_defs UpdateAnimation_def)

lemma exCut_tick: "UpdateAnimation slerp exCutPlaying (1 / 2) = Inl SliceBoundsOutOfRange"
  by (simp add: exAnim_defs anim_defs)

section \<open>The claims\<close>

subsection \<open>C1: a clip that is not looping and has run out\<close>



subsection \<open>C2: PlayAnimation\<close>

text \<open>
  C2, as the code has it: when the map has no clip of the name, \<open>PlayAnimation\<close>
  returns the error with the name and the names of the map, and the renderer is
  unchanged; when it has one, the clip becomes the current one with the start time and
  the loop flag, and the current and base transforms of the nodes stay as they were
  (nothing is reset by \<open>PlayAnimation\<close>).
\<close>

theorem C2_play:
  "(map_of (Animations r) missing = None \<longrightarrow>
      PlayAnimation r missing loop now = (r, Some (NotFound missing (set (map fst (Animations r))))))
   \<and> (map_of (Animations r) name = Some anim \<longrightarrow>
      PlayAnimation r name loop now =
        (r\<lparr>CurrentAnim := Some anim, AnimStartTime := now, AnimLoop := loop\<rparr>, None)
      \<and> NodeTransforms (fst (PlayAnimation r name loop now)) = NodeTransforms r
      \<and> BaseTransforms (fst (PlayAnimation r name loop now)) = BaseTransforms r)"
  by (simp add: PlayAnimation_def)

theorem C2_play_witness:
  "map_of (Animations exLoaded) ''run'' = None
   \<and> PlayAnimation exLoaded ''run'' True 3 = (exLoaded, Some (NotFound ''run'' (set [''walk'', ''idle''])))
   \<and> map_of (Animations exLoaded) ''walk'' = Some exClip
   \<and> PlayAnimation exLoaded ''walk'' True 3 =
       (exLoaded\<lparr>CurrentAnim := Some exClip, AnimStartTime := 3, AnimLoop := True\<rparr>, None)"
proof -
  have miss: "map_of (Animations exLoaded) ''run'' = None" by (simp add: exLoaded_def)
  have hit: "map_of (Animations exLoaded) ''walk'' = Some exClip" by (simp add: exLoaded_def)
  have names: "set (map fst (Animations exLoaded)) = set [''walk'', ''idle'']" by (simp add: exLoaded_def)
  from C2_play[of exLoaded "''run''" True 3 "''walk''" exClip] miss hit names
  show ?thesis by simp
qed

text \<open>
  C2 as stated fails where it says that a found clip resets every node's current
  transform to its base transform: with node 0 at \<open>exPose\<close> and its base at
  \<open>exBase\<close>, playing \<open>walk\<close> returns no error and node 0 is still at \<open>exPose\<close>.
\<close>

theorem C2_play_hit_keeps_transforms_counterexample:
  "snd (PlayAnimation (exLoaded\<lparr>NodeTransforms := [exPose]\<rparr>) ''walk'' False 3) = None
   \<and> NodeTransforms (fst (PlayAnimation (exLoaded\<lparr>NodeTransforms := [exPose]\<rparr>) ''walk'' False 3)) = [exPose]
   \<and> BaseTransforms (fst (PlayAnimation (exLoaded\<lparr>NodeTransforms := [exPose]\<rparr>) ''walk'' False 3)) = [exBase]
   \<and> exPose \<noteq> exBase"
  by (simp add: PlayAnimation_def exLoaded_def exPose_def exBase_def)

subsection \<open>C10: channels that are skipped\<close>

text \<open>
  C10: in the loop of \<open>UpdateAnimation\<close> over the channels, a channel whose node index
  is negative or not below the number of nodes returns the transforms unchanged and
  without a panic; a channel with no timestamps interpolates to \<open>nil\<close> and also leaves
  the transforms unchanged; so the loop over any list of channels gives what it gives on
  the list without those channels.
\<close>

theorem C10_skipped_channels:
  "(NodeIndex c < 0 \<or> NodeIndex c \<ge> int (length nts) \<longrightarrow> applyChannel slerp c e nts = Inr nts)
   \<and> (Timestamps c' = [] \<longrightarrow>
        interpolateKeyframes slerp c' e = Inr [] \<and> applyChannel slerp c' e nts = Inr nts)
   \<and> applyChannels slerp cs e nts =
       applyChannels slerp
         (filter (\<lambda>c. \<not> (NodeIndex c < 0 \<or> NodeIndex c \<ge> int (length nts) \<or> Timestamps c = [])) cs)
         e nts"
  using applyChannel_skip_index[of c nts slerp e] interpolateKeyframes_no_keys[of c' slerp e]
    applyChannel_skip_no_keys[of c' slerp e nts] applyChannels_filter_skipped[of slerp cs e nts]
  by blast

theorem C10_skipped_channels_witness:
  "NodeIndex exNoNode \<ge> int (length [exBase])
   \<and> applyChannel QuatLerp exNoNode (1 / 2) [exBase] = Inr [exBase]
   \<and> Timestamps exNoKeys = []
   \<and> interpolateKeyframes QuatLerp exNoKeys (1 / 2) = Inr []
   \<and> applyChannel QuatLerp exNoKeys (1 / 2) [exBase] = Inr [exBase]
   \<and> applyChannels QuatLerp [exNoNode, exChannel, exNoKeys] (1 / 2) [exBase] =
       applyChannels QuatLerp [exChannel] (1 / 2) [exBase]"
proof -
  have a: "NodeIndex exNoNode \<ge> int (length [exBase])" by (simp add: exNoNode_def)
  have b: "Timestamps exNoKeys = []" by (simp add: exNoKeys_def)
  have f: "filter (\<lambda>c. \<not> (NodeIndex c < 0 \<or> NodeIndex c \<ge> int (length [exBase]) \<or> Timestamps c = []))
             [exNoNode, exChannel, exNoKeys] = [exChannel]"
    by (simp add: exNoNode_def exNoKeys_def exChannel_def)
  from C10_skipped_channels[of exNoNode "[exBase]" QuatLerp "1 / 2" exNoKeys
      "[exNoNode, exChannel, exNoKeys]"] a b
  show ?thesis unfolding f by blast
qed

subsection \<open>C9: reset, then apply\<close>

text \<open>
  C9. A tick that applies the channels of the playing clip (the clip loops and has a
  positive duration, or the elapsed time is not beyond the duration) first resets the
  current transforms to the base transforms and then applies the channels to them. It
  either faults, and then the base transforms are fewer than the current ones or some
  channel of the clip has a value buffer shorter than its timestamps need; or it returns,
  the clip keeps playing, and every translation, rotation and scale that no channel of
  the clip targets equals its base value. A channel changes at most the one property its
  path names, on the one node it targets. In a state the renderer reaches, every tick of
  a playing clip, the one that ends the clip included, either faults on such a value
  buffer or returns with every current transform equal to its base transform.
\<close>

theorem C9_reset_then_apply:
  assumes "CurrentAnim r = Some anim"
  shows "((AnimLoop r \<and> Duration anim > 0) \<or> \<not> now - AnimStartTime r > Duration anim \<longrightarrow>
           (case UpdateAnimation slerp r now of
              Inl p \<Rightarrow>
                (p = IndexOutOfRange \<and> length (BaseTransforms r) < length (NodeTransforms r))
                \<or> (p = SliceBoundsOutOfRange
                   \<and> (\<exists>c \<in> set (Channels anim).
                         length (Values c) < (length (Timestamps c) - 1) * componentCount c))
            | Inr r' \<Rightarrow>
                (\<exists>e. applyChannels slerp (Channels anim) e
                        (take (length (NodeTransforms r)) (BaseTransforms r)) = Inr (NodeTransforms r'))
                \<and> length (NodeTransforms r') = length (NodeTransforms r)
                \<and> BaseTransforms r' = BaseTransforms r
                \<and> CurrentAnim r' = Some anim
                \<and> (\<forall>i < length (NodeTransforms r).
                     ((\<forall>c \<in> set (Channels anim). \<not> (NodeIndex c = int i \<and> Path c = ''translation''))
                        \<longrightarrow> Translation (NodeTransforms r' ! i) = Translation (BaseTransforms r ! i))
                   \<and> ((\<forall>c \<in> set (Channels anim). \<not> (NodeIndex c = int i \<and> Path c = ''rotation''))
                        \<longrightarrow> Rotation (NodeTransforms r' ! i) = Rotation (BaseTransforms r ! i))
                   \<and> ((\<forall>c \<in> set (Channels anim). \<not> (NodeIndex c = int i \<and> Path c = ''scale''))
                        \<longrightarrow> Scale (NodeTransforms r' ! i) = Scale (BaseTransforms r ! i)))))
     \<and> (\<forall>c e nts nts' i. applyChannel slerp c e nts = Inr nts' \<and> i < length nts \<longrightarrow>
            (NodeIndex c \<noteq> int i \<longrightarrow> nts' ! i = nts ! i)
          \<and> (Path c \<noteq> ''translation'' \<longrightarrow> Translation (nts' ! i) = Translation (nts ! i))
          \<and> (Path c \<noteq> ''rotation'' \<longrightarrow> Rotation (nts' ! i) = Rotation (nts ! i))
          \<and> (Path c \<noteq> ''scale'' \<longrightarrow> Scale (nts' ! i) = Scale (nts ! i)))
     \<and> (reachable r \<longrightarrow>
           (case UpdateAnimation slerp r now of
              Inl p \<Rightarrow>
                p = SliceBoundsOutOfRange
                \<and> (\<exists>c \<in> set (Channels anim).
                      length (Values c) < (length (Timestamps c) - 1) * componentCount c)
            | Inr r' \<Rightarrow>
                NodeTransforms r' = BaseTransforms r' \<and> BaseTransforms r' = BaseTransforms r))"
proof -
  have A: "(AnimLoop r \<and> Duration anim > 0) \<or> \<not> now - AnimStartTime r > Duration anim \<longrightarrow>
           (case UpdateAnimation slerp r now of
              Inl p \<Rightarrow>
                (p = IndexOutOfRange \<and> length (BaseTransforms r) < length (NodeTransforms r))
                \<or> (p = SliceBoundsOutOfRange
                   \<and> (\<exists>c \<in> set (Channels anim).
                         length (Values c) < (length (Timestamps c) - 1) * componentCount c))
            | Inr r' \<Rightarrow>
                (\<exists>e. applyChannels slerp (Channels anim) e
                        (take (length (NodeTransforms r)) (BaseTransforms r)) = Inr (NodeTransforms r'))
                \<and> length (NodeTransforms r') = length (NodeTransforms r)
                \<and> BaseTransforms r' = BaseTransforms r
                \<and> CurrentAnim r' = Some anim
                \<and> (\<forall>i < length (NodeTransforms r).
                     ((\<forall>c \<in> set (Channels anim). \<not> (NodeIndex c = int i \<and> Path c = ''translation''))
                        \<longrightarrow> Translation (NodeTransforms r' ! i) = Translation (BaseTransforms r ! i))
                   \<and> ((\<forall>c \<in> set (Channels anim). \<not> (NodeIndex c = int i \<and> Path c = ''rotation''))
                        \<longrightarrow> Rotation (NodeTransforms r' ! i) = Rotation (BaseTransforms r ! i))
                   \<and> ((\<forall>c \<in> set (Channels anim). \<not> (NodeIndex c = int i \<and> Path c = ''scale''))
                        \<longrightarrow> Scale (NodeTransforms r' ! i) = Scale (BaseTransforms r ! i))))"
  proof
    assume ticking: "(AnimLoop r \<and> Duration anim > 0) \<or> \<not> now - AnimStartTime r > Duration anim"
    show "case UpdateAnimation slerp r now of
              Inl p \<Rightarrow>
                (p = IndexOutOfRange \<and> length (BaseTransforms r) < length (NodeTransforms r))
                \<or> (p = SliceBoundsOutOfRange
                   \<and> (\<exists>c \<in> set (Channels anim).
                         length (Values c) < (length (Timestamps c) - 1) * componentCount c))
            | Inr r' \<Rightarrow>
                (\<exists>e. applyChannels slerp (Channels anim) e
                        (take (length (NodeTransforms r)) (BaseTransforms r)) = Inr (NodeTransforms r'))
                \<and> length (NodeTransforms r') = length (NodeTransforms r)
                \<and> BaseTransforms r' = BaseTransforms r
                \<and> CurrentAnim r' = Some anim
                \<and> (\<forall>i < length (NodeTransforms r).
                     ((\<forall>c \<in> set (Channels anim). \<not> (NodeIndex c = int i \<and> Path c = ''translation''))
                        \<longrightarrow> Translation (NodeTransforms r' ! i) = Translation (BaseTransforms r ! i))
                   \<and> ((\<forall>c \<in> set (Channels anim). \<not> (NodeIndex c = int i \<and> Path c = ''rotation''))
                        \<longrightarrow> Rotation (NodeTransforms r' ! i) = Rotation (BaseTransforms r ! i))
                   \<and> ((\<forall>c \<in> set (Channels anim). \<not> (NodeIndex c = int i \<and> Path c = ''scale''))
                        \<longrightarrow> Scale (NodeTransforms r' ! i) = Scale (BaseTransforms r ! i)))"
    proof (cases "UpdateAnimation slerp r now")
      case (Inl p)
      from UpdateAnimation_ticking_Inl[OF assms Inl] Inl show ?thesis by simp
    next
      case (Inr r')
      define e where "e = (if AnimLoop r \<and> Duration anim > 0
        then fmod (now - AnimStartTime r) (Duration anim) else now - AnimStartTime r)"
      define base where "base = take (length (NodeTransforms r)) (BaseTransforms r)"
      have "applyAnimation slerp anim e r = Inr r'"
        using UpdateAnimation_playing[OF assms ticking, of slerp] Inr by (simp add: e_def)
      note AA = applyAnimation_Inr[OF this]
      have len: "length (NodeTransforms r) \<le> length (BaseTransforms r)" using AA by simp
      have app: "applyChannels slerp (Channels anim) e base = Inr (NodeTransforms r')"
        using AA by (simp add: base_def)
      have r': "r' = r\<lparr>NodeTransforms := NodeTransforms r'\<rparr>" using AA by simp
      have lb: "length base = length (NodeTransforms r)" using len by (simp add: base_def)
      have bn: "\<And>i. i < length (NodeTransforms r) \<Longrightarrow> base ! i = BaseTransforms r ! i"
        by (simp add: base_def)
      have 1: "\<exists>e. applyChannels slerp (Channels anim) e
                (take (length (NodeTransforms r)) (BaseTransforms r)) = Inr (NodeTransforms r')"
        using app unfolding base_def by blast
      have 2: "length (NodeTransforms r') = length (NodeTransforms r)"
        using applyChannels_length[OF app] lb by simp
      have 3: "BaseTransforms r' = BaseTransforms r" by (subst r') simp
      have 4: "CurrentAnim r' = Some anim" using assms by (subst r') simp
      have 5: "\<forall>i < length (NodeTransforms r).
          ((\<forall>c \<in> set (Channels anim). \<not> (NodeIndex c = int i \<and> Path c = ''translation''))
             \<longrightarrow> Translation (NodeTransforms r' ! i) = Translation (BaseTransforms r ! i))
        \<and> ((\<forall>c \<in> set (Channels anim). \<not> (NodeIndex c = int i \<and> Path c = ''rotation''))
             \<longrightarrow> Rotation (NodeTransforms r' ! i) = Rotation (BaseTransforms r ! i))
        \<and> ((\<forall>c \<in> set (Channels anim). \<not> (NodeIndex c = int i \<and> Path c = ''scale''))
             \<longrightarrow> Scale (NodeTransforms r' ! i) = Scale (BaseTransforms r ! i))"
      proof (intro allI impI conjI)
        fix i assume i: "i < length (NodeTransforms r)"
          and "\<forall>c \<in> set (Channels anim). \<not> (NodeIndex c = int i \<and> Path c = ''translation'')"
        then show "Translation (NodeTransforms r' ! i) = Translation (BaseTransforms r ! i)"
          using applyChannels_Translation[OF app, of i] lb bn by simp
      next
        fix i assume i: "i < length (NodeTransforms r)"
          and "\<forall>c \<in> set (Channels anim). \<not> (NodeIndex c = int i \<and> Path c = ''rotation'')"
        then show "Rotation (NodeTransforms r' ! i) = Rotation (BaseTransforms r ! i)"
          using applyChannels_Rotation[OF app, of i] lb bn by simp
      next
        fix i assume i: "i < length (NodeTransforms r)"
          and "\<forall>c \<in> set (Channels anim). \<not> (NodeIndex c = int i \<and> Path c = ''scale'')"
        then show "Scale (NodeTransforms r' ! i) = Scale (BaseTransforms r ! i)"
          using applyChannels_Scale[OF app, of i] lb bn by simp
      qed
      from 1 2 3 4 5 show ?thesis unfolding Inr by simp
    qed
  qed
  have B: "\<forall>c e nts nts' i. applyChannel slerp c e nts = Inr nts' \<and> i < length nts \<longrightarrow>
            (NodeIndex c \<noteq> int i \<longrightarrow> nts' ! i = nts ! i)
          \<and> (Path c \<noteq> ''translation'' \<longrightarrow> Translation (nts' ! i) = Translation (nts ! i))
          \<and> (Path c \<noteq> ''rotation'' \<longrightarrow> Rotation (nts' ! i) = Rotation (nts ! i))
          \<and> (Path c \<noteq> ''scale'' \<longrightarrow> Scale (nts' ! i) = Scale (nts ! i))"
  proof (intro allI impI)
    fix c e nts nts' i
    assume "applyChannel slerp c e nts = Inr nts' \<and> i < length nts"
    then show "(NodeIndex c \<noteq> int i \<longrightarrow> nts' ! i = nts ! i)
          \<and> (Path c \<noteq> ''translation'' \<longrightarrow> Translation (nts' ! i) = Translation (nts ! i))
          \<and> (Path c \<noteq> ''rotation'' \<longrightarrow> Rotation (nts' ! i) = Rotation (nts ! i))
          \<and> (Path c \<noteq> ''scale'' \<longrightarrow> Scale (nts' ! i) = Scale (nts ! i))"
      using applyChannel_other_node[of slerp c e nts nts' i]
        applyChannel_Translation[of slerp c e nts nts' i]
        applyChannel_Rotation[of slerp c e nts nts' i]
        applyChannel_Scale[of slerp c e nts nts' i]
      by simp
  qed
  have C: "reachable r \<longrightarrow>
           (case UpdateAnimation slerp r now of
              Inl p \<Rightarrow>
                p = SliceBoundsOutOfRange
                \<and> (\<exists>c \<in> set (Channels anim).
                      length (Values c) < (length (Timestamps c) - 1) * componentCount c)
            | Inr r' \<Rightarrow>
                NodeTransforms r' = BaseTransforms r' \<and> BaseTransforms r' = BaseTransforms r)"
  proof
    assume re: "reachable r"
    note I = reachable_inv[OF re]
    show "case UpdateAnimation slerp r now of
              Inl p \<Rightarrow>
                p = SliceBoundsOutOfRange
                \<and> (\<exists>c \<in> set (Channels anim).
                      length (Values c) < (length (Timestamps c) - 1) * componentCount c)
            | Inr r' \<Rightarrow>
                NodeTransforms r' = BaseTransforms r' \<and> BaseTransforms r' = BaseTransforms r"
    proof (cases "UpdateAnimation slerp r now")
      case (Inl p)
      from UpdateAnimation_ticking_Inl[OF assms Inl] I Inl show ?thesis by simp
    next
      case (Inr r')
      from UpdateAnimation_loaded[OF _ _ Inr] I
      have "r' = r \<or> r' = r\<lparr>CurrentAnim := None\<rparr>" by blast
      then have "NodeTransforms r' = BaseTransforms r' \<and> BaseTransforms r' = BaseTransforms r"
        using I by auto
      then show ?thesis unfolding Inr by simp
    qed
  qed
  from A B C show ?thesis by blast
qed

text \<open>
  The tick at time 1/2 of the loaded clip \<open>walk\<close>, the tick at time 1/2 of the loaded
  clip \<open>cut\<close>, which faults, and a channel with the path \<open>translation\<close> applied to
  a node whose scale is \<open>(3, 3, 3)\<close>.
\<close>

theorem C9_reset_then_apply_witness:
  "CurrentAnim exAnimPlaying = Some exWalk
   \<and> \<not> 1 / 2 - AnimStartTime exAnimPlaying > Duration exWalk
   \<and> reachable exAnimPlaying
   \<and> UpdateAnimation QuatLerp exAnimPlaying (1 / 2) = Inr exAnimPlaying
   \<and> NodeTransforms exAnimPlaying = BaseTransforms exAnimPlaying
   \<and> Translation (NodeTransforms exAnimPlaying ! 0) = Translation (BaseTransforms exAnimPlaying ! 0)
   \<and> Rotation (NodeTransforms exAnimPlaying ! 0) = Rotation (BaseTransforms exAnimPlaying ! 0)
   \<and> Scale (NodeTransforms exAnimPlaying ! 0) = Scale (BaseTransforms exAnimPlaying ! 0)
   \<and> CurrentAnim exCutPlaying = Some exCut
   \<and> reachable exCutPlaying
   \<and> UpdateAnimation QuatLerp exCutPlaying (1 / 2) = Inl SliceBoundsOutOfRange
   \<and> (\<exists>c \<in> set (Channels exCut).
         length (Values c) < (length (Timestamps c) - 1) * componentCount c)
   \<and> applyChannel QuatLerp exChannel (1 / 2) [exBase\<lparr>Scale := (3, 3, 3)\<rparr>]
       = Inr [exPose\<lparr>Scale := (3, 3, 3)\<rparr>]
   \<and> Scale ([exPose\<lparr>Scale := (3, 3, 3)\<rparr>] ! 0) = Scale ([exBase\<lparr>Scale := (3, 3, 3)\<rparr>] ! 0)
   \<and> Rotation ([exPose\<lparr>Scale := (3, 3, 3)\<rparr>] ! 0) = Rotation ([exBase\<lparr>Scale := (3, 3, 3)\<rparr>] ! 0)"
proof -
  have a: "CurrentAnim exAnimPlaying = Some exWalk" by (simp add: exAnimPlaying_def)
  have b: "\<not> 1 / 2 - AnimStartTime exAnimPlaying > Duration exWalk"
    by (simp add: exAnimPlaying_def exWalk_def)
  then have b': "(AnimLoop exAnimPlaying \<and> Duration exWalk > 0)
      \<or> \<not> 1 / 2 - AnimStartTime exAnimPlaying > Duration exWalk" by simp
  note T = C9_reset_then_apply[OF a, where slerp = QuatLerp and now = "1 / 2"]
  note u = exAnim_tick[of QuatLerp]
  from T b' have "case UpdateAnimation QuatLerp exAnimPlaying (1 / 2) of
              Inl p \<Rightarrow>
                (p = IndexOutOfRange
                 \<and> length (BaseTransforms exAnimPlaying) < length (NodeTransforms exAnimPlaying))
                \<or> (p = SliceBoundsOutOfRange
                   \<and> (\<exists>c \<in> set (Channels exWalk).
                         length (Values c) < (length (Timestamps c) - 1) * componentCount c))
            | Inr r' \<Rightarrow>
                (\<exists>e. applyChannels QuatLerp (Channels exWalk) e
                        (take (length (NodeTransforms exAnimPlaying)) (BaseTransforms exAnimPlaying))
                      = Inr (NodeTransforms r'))
                \<and> length (NodeTransforms r') = length (NodeTransforms exAnimPlaying)
                \<and> BaseTransforms r' = BaseTransforms exAnimPlaying
                \<and> CurrentAnim r' = Some exWalk
                \<and> (\<forall>i < length (NodeTransforms exAnimPlaying).
                     ((\<forall>c \<in> set (Channels exWalk). \<not> (NodeIndex c = int i \<and> Path c = ''translation''))
                        \<longrightarrow> Translation (NodeTransforms r' ! i) = Translation (BaseTransforms exAnimPlaying ! i))
                   \<and> ((\<forall>c \<in> set (Channels exWalk). \<not> (NodeIndex c = int i \<and> Path c = ''rotation''))
                        \<longrightarrow> Rotation (NodeTransforms r' ! i) = Rotation (BaseTransforms exAnimPlaying ! i))
                   \<and> ((\<forall>c \<in> set (Channels exWalk). \<not> (NodeIndex c = int i \<and> Path c = ''scale''))
                        \<longrightarrow> Scale (NodeTransforms r' ! i) = Scale (BaseTransforms exAnimPlaying ! i)))"
    by blast
  then have F: "\<forall>i < length (NodeTransforms exAnimPlaying).
                     ((\<forall>c \<in> set (Channels exWalk). \<not> (NodeIndex c = int i \<and> Path c = ''translation''))
                        \<longrightarrow> Translation (NodeTransforms exAnimPlaying ! i) = Translation (BaseTransforms exAnimPlaying ! i))
                   \<and> ((\<forall>c \<in> set (Channels exWalk). \<not> (NodeIndex c = int i \<and> Path c = ''rotation''))
                        \<longrightarrow> Rotation (NodeTransforms exAnimPlaying ! i) = Rotation (BaseTransforms exAnimPlaying ! i))
                   \<and> ((\<forall>c \<in> set (Channels exWalk). \<not> (NodeIndex c = int i \<and> Path c = ''scale''))
                        \<longrightarrow> Scale (NodeTransforms exAnimPlaying ! i) = Scale (BaseTransforms exAnimPlaying ! i))"
    unfolding u by simp
  have l: "0 < length (NodeTransforms exAnimPlaying)"
    by (simp add: exAnimPlaying_def exAnimLoaded_def)
  have ch: "\<forall>c \<in> set (Channels exWalk). \<not> (NodeIndex c = int 0 \<and> Path c = ''translation'')"
    "\<forall>c \<in> set (Channels exWalk). \<not> (NodeIndex c = int 0 \<and> Path c = ''rotation'')"
    "\<forall>c \<in> set (Channels exWalk). \<not> (NodeIndex c = int 0 \<and> Path c = ''scale'')"
    by (simp_all add: exWalk_def)
  from F l ch have f: "Translation (NodeTransforms exAnimPlaying ! 0) = Translation (BaseTransforms exAnimPlaying ! 0)"
    "Rotation (NodeTransforms exAnimPlaying ! 0) = Rotation (BaseTransforms exAnimPlaying ! 0)"
    "Scale (NodeTransforms exAnimPlaying ! 0) = Scale (BaseTransforms exAnimPlaying ! 0)"
    by blast+
  from T exAnimPlaying_reachable have "case UpdateAnimation QuatLerp exAnimPlaying (1 / 2) of
              Inl p \<Rightarrow>
                p = SliceBoundsOutOfRange
                \<and> (\<exists>c \<in> set (Channels exWalk).
                      length (Values c) < (length (Timestamps c) - 1) * componentCount c)
            | Inr r' \<Rightarrow>
                NodeTransforms r' = BaseTransforms r' \<and> BaseTransforms r' = BaseTransforms exAnimPlaying"
    by blast
  then have g: "NodeTransforms exAnimPlaying = BaseTransforms exAnimPlaying"
    unfolding u by simp
  have a2: "CurrentAnim exCutPlaying = Some exCut" by (simp add: exCutPlaying_def)
  note T2 = C9_reset_then_apply[OF a2, where slerp = QuatLerp and now = "1 / 2"]
  note u2 = exCut_tick[of QuatLerp]
  from T2 exCutPlaying_reachable have "case UpdateAnimation QuatLerp exCutPlaying (1 / 2) of
              Inl p \<Rightarrow>
                p = SliceBoundsOutOfRange
                \<and> (\<exists>c \<in> set (Channels exCut).
                      length (Values c) < (length (Timestamps c) - 1) * componentCount c)
            | Inr r' \<Rightarrow>
                NodeTransforms r' = BaseTransforms r' \<and> BaseTransforms r' = BaseTransforms exCutPlaying"
    by blast
  then have s: "\<exists>c \<in> set (Channels exCut).
         length (Values c) < (length (Timestamps c) - 1) * componentCount c"
    unfolding u2 by simp
  have ac: "applyChannel QuatLerp exChannel (1 / 2) [exBase\<lparr>Scale := (3, 3, 3)\<rparr>]
       = Inr [exPose\<lparr>Scale := (3, 3, 3)\<rparr>]"
    by (simp add: ex_defs anim_defs)
  have pc: "Path exChannel \<noteq> ''scale''" "Path exChannel \<noteq> ''rotation''"
    by (simp_all add: exChannel_def)
  from T have "applyChannel QuatLerp exChannel (1 / 2) [exBase\<lparr>Scale := (3, 3, 3)\<rparr>]
       = Inr [exPose\<lparr>Scale := (3, 3, 3)\<rparr>] \<and> 0 < length [exBase\<lparr>Scale := (3, 3, 3)\<rparr>] \<longrightarrow>
       (Path exChannel \<noteq> ''rotation'' \<longrightarrow>
          Rotation ([exPose\<lparr>Scale := (3, 3, 3)\<rparr>] ! 0) = Rotation ([exBase\<lparr>Scale := (3, 3, 3)\<rparr>] ! 0))
     \<and> (Path exChannel \<noteq> ''scale'' \<longrightarrow>
          Scale ([exPose\<lparr>Scale := (3, 3, 3)\<rparr>] ! 0) = Scale ([exBase\<lparr>Scale := (3, 3, 3)\<rparr>] ! 0))"
    by blast
  with ac pc have k: "Scale ([exPose\<lparr>Scale := (3, 3, 3)\<rparr>] ! 0) = Scale ([exBase\<lparr>Scale := (3, 3, 3)\<rparr>] ! 0)"
    "Rotation ([exPose\<lparr>Scale := (3, 3, 3)\<rparr>] ! 0) = Rotation ([exBase\<lparr>Scale := (3, 3, 3)\<rparr>] ! 0)"
    by simp_all
  from a b exAnimPlaying_reachable u g f a2 exCutPlaying_reachable u2 s ac k
  show ?thesis by blast
qed


subsection \<open>C8: interpolation between keyframes\<close>

text \<open>
  C8, for a channel whose timestamps are not empty and strictly increasing and whose
  value buffer holds a sample (3 floats, 4 for a rotation) for every timestamp: at or
  before the first timestamp \<open>interpolateKeyframes\<close> returns the first sample; at or
  after the last timestamp it returns the last sample; at a time \<open>t\<close> with
  \<open>ts[k] \<le> t < ts[k+1]\<close> it returns the blend of samples \<open>k\<close> and \<open>k+1\<close> with the
  factor \<open>clamp((t - ts[k]) / (ts[k+1] - ts[k]), 0, 1)\<close>, component-wise for a
  translation or scale and by the library's slerp for a rotation; and one of the three
  cases always applies. At the first timestamp itself a rotation with more than one
  keyframe goes through the library's slerp with the factor 0; \<open>mgl32.QuatSlerp\<close> lies
  outside the repository, and for this one case it is taken to return its first argument
  at the factor 0 for the first two samples of the channel.
\<close>

theorem C8_interpolation:
  assumes "Timestamps c \<noteq> []" and "sorted_wrt (<) (Timestamps c)"
    and "componentCount c * length (Timestamps c) \<le> length (Values c)"
  shows "(tb \<le> Timestamps c ! 0
          \<and> (Path c = ''rotation'' \<and> 1 < length (Timestamps c) \<and> tb = Timestamps c ! 0 \<longrightarrow>
                slerp (quatAt (Values c) 0) (quatAt (Values c) 4) 0 = quatAt (Values c) 0) \<longrightarrow>
            interpolateKeyframes slerp c tb = Inr (take (componentCount c) (Values c)))
     \<and> (last (Timestamps c) \<le> ta \<longrightarrow>
            interpolateKeyframes slerp c ta
            = Inr (take (componentCount c)
                     (drop ((length (Timestamps c) - 1) * componentCount c) (Values c))))
     \<and> (\<forall>k. k + 1 < length (Timestamps c) \<and> Timestamps c ! k \<le> t \<and> t < Timestamps c ! (k + 1) \<longrightarrow>
            interpolateKeyframes slerp c t
            = Inr (if Path c = ''rotation''
                   then (let qr = slerp (quatAt (Values c) (k * 4)) (quatAt (Values c) ((k + 1) * 4))
                                    (clamp01 ((t - Timestamps c ! k)
                                       / (Timestamps c ! (k + 1) - Timestamps c ! k)))
                         in [fst (V qr), fst (snd (V qr)), snd (snd (V qr)), W qr])
                   else map (\<lambda>i. Values c ! (k * 3 + i)
                                   + (Values c ! ((k + 1) * 3 + i) - Values c ! (k * 3 + i))
                                     * clamp01 ((t - Timestamps c ! k)
                                         / (Timestamps c ! (k + 1) - Timestamps c ! k)))
                          [0..<3]))
     \<and> (t < Timestamps c ! 0 \<or> last (Timestamps c) \<le> t
          \<or> (\<exists>k. k + 1 < length (Timestamps c) \<and> Timestamps c ! k \<le> t \<and> t < Timestamps c ! (k + 1)))"
proof -
  have A: "tb \<le> Timestamps c ! 0
          \<and> (Path c = ''rotation'' \<and> 1 < length (Timestamps c) \<and> tb = Timestamps c ! 0 \<longrightarrow>
                slerp (quatAt (Values c) 0) (quatAt (Values c) 4) 0 = quatAt (Values c) 0) \<longrightarrow>
            interpolateKeyframes slerp c tb = Inr (take (componentCount c) (Values c))"
    using interpolate_upto_first[OF assms(2,1,3), of tb slerp] by blast
  have B: "last (Timestamps c) \<le> ta \<longrightarrow>
            interpolateKeyframes slerp c ta
            = Inr (take (componentCount c)
                     (drop ((length (Timestamps c) - 1) * componentCount c) (Values c)))"
    using interpolate_after[OF assms(2,1,3)] by blast
  have C: "\<forall>k. k + 1 < length (Timestamps c) \<and> Timestamps c ! k \<le> t \<and> t < Timestamps c ! (k + 1) \<longrightarrow>
            interpolateKeyframes slerp c t
            = Inr (if Path c = ''rotation''
                   then (let qr = slerp (quatAt (Values c) (k * 4)) (quatAt (Values c) ((k + 1) * 4))
                                    (clamp01 ((t - Timestamps c ! k)
                                       / (Timestamps c ! (k + 1) - Timestamps c ! k)))
                         in [fst (V qr), fst (snd (V qr)), snd (snd (V qr)), W qr])
                   else map (\<lambda>i. Values c ! (k * 3 + i)
                                   + (Values c ! ((k + 1) * 3 + i) - Values c ! (k * 3 + i))
                                     * clamp01 ((t - Timestamps c ! k)
                                         / (Timestamps c ! (k + 1) - Timestamps c ! k)))
                          [0..<3])"
  proof (intro allI impI)
    fix k
    assume h: "k + 1 < length (Timestamps c) \<and> Timestamps c ! k \<le> t \<and> t < Timestamps c ! (k + 1)"
    then have k: "k + 1 < length (Timestamps c)" and a: "Timestamps c ! k \<le> t"
      and b: "t < Timestamps c ! (k + 1)" by simp_all
    show "interpolateKeyframes slerp c t
            = Inr (if Path c = ''rotation''
                   then (let qr = slerp (quatAt (Values c) (k * 4)) (quatAt (Values c) ((k + 1) * 4))
                                    (clamp01 ((t - Timestamps c ! k)
                                       / (Timestamps c ! (k + 1) - Timestamps c ! k)))
                         in [fst (V qr), fst (snd (V qr)), snd (snd (V qr)), W qr])
                   else map (\<lambda>i. Values c ! (k * 3 + i)
                                   + (Values c ! ((k + 1) * 3 + i) - Values c ! (k * 3 + i))
                                     * clamp01 ((t - Timestamps c ! k)
                                         / (Timestamps c ! (k + 1) - Timestamps c ! k)))
                          [0..<3])"
      unfolding interpolate_between[OF assms(2,3) k a b, of slerp]
      by (simp add: blendKeyframes_def componentCount_def Let_def)
  qed
  note E = timestamps_cases[OF assms(2,1), of t]
  from A B C E show ?thesis by blast
qed

text \<open>
  A translation channel with the samples \<open>(0, 0, 0)\<close> and \<open>(10, 0, 0)\<close> at the times
  0 and 1, sampled before, at and after its timestamps and halfway between them; and a
  rotation channel with two keyframes at the times 0 and 2, sampled at its first
  timestamp, before it and after the last one, with a slerp that returns its first
  argument at the factor 0.
\<close>

theorem C8_interpolation_witness:
  "Timestamps exChannel \<noteq> [] \<and> sorted_wrt (<) (Timestamps exChannel)
   \<and> componentCount exChannel * length (Timestamps exChannel) \<le> length (Values exChannel)
   \<and> - 1 \<le> Timestamps exChannel ! 0
   \<and> interpolateKeyframes QuatLerp exChannel (- 1) = Inr [0, 0, 0]
   \<and> 0 \<le> Timestamps exChannel ! 0
   \<and> interpolateKeyframes QuatLerp exChannel 0 = Inr [0, 0, 0]
   \<and> last (Timestamps exChannel) \<le> 1
   \<and> interpolateKeyframes QuatLerp exChannel 1 = Inr [10, 0, 0]
   \<and> Timestamps exChannel ! 0 \<le> 1 / 2 \<and> 1 / 2 < Timestamps exChannel ! (0 + 1)
   \<and> interpolateKeyframes QuatLerp exChannel (1 / 2) = Inr [5, 0, 0]
   \<and> Timestamps exRotChannel \<noteq> [] \<and> sorted_wrt (<) (Timestamps exRotChannel)
   \<and> componentCount exRotChannel * length (Timestamps exRotChannel) \<le> length (Values exRotChannel)
   \<and> Path exRotChannel = ''rotation'' \<and> 1 < length (Timestamps exRotChannel)
   \<and> 0 = Timestamps exRotChannel ! 0
   \<and> QuatLerp (quatAt (Values exRotChannel) 0) (quatAt (Values exRotChannel) 4) 0
       = quatAt (Values exRotChannel) 0
   \<and> interpolateKeyframes QuatLerp exRotChannel 0 = Inr [0, 0, 0, 1]
   \<and> interpolateKeyframes QuatLerp exRotChannel (- 1) = Inr [0, 0, 0, 1]
   \<and> last (Timestamps exRotChannel) \<le> 2
   \<and> interpolateKeyframes QuatLerp exRotChannel 2 = Inr [0, 1, 0, 0]"
proof -
  have h1: "Timestamps exChannel \<noteq> []" by (simp add: exChannel_def)
  have h2: "sorted_wrt (<) (Timestamps exChannel)" by (simp add: exChannel_def)
  have h3: "componentCount exChannel * length (Timestamps exChannel) \<le> length (Values exChannel)"
    by (simp add: exChannel_def componentCount_def)
  have np: "Path exChannel \<noteq> ''rotation''" by (simp add: exChannel_def)
  have a: "- 1 \<le> Timestamps exChannel ! 0" by (simp add: exChannel_def)
  have a0: "0 \<le> Timestamps exChannel ! 0" by (simp add: exChannel_def)
  have b: "last (Timestamps exChannel) \<le> 1" by (simp add: exChannel_def)
  have c: "0 + 1 < length (Timestamps exChannel) \<and> Timestamps exChannel ! 0 \<le> 1 / 2
           \<and> 1 / 2 < Timestamps exChannel ! (0 + 1)"
    by (simp add: exChannel_def)
  note T = C8_interpolation[OF h1 h2 h3, where slerp = QuatLerp and tb = "- 1" and ta = 1
      and t = "1 / 2"]
  note T0 = C8_interpolation[OF h1 h2 h3, where slerp = QuatLerp and tb = 0]
  have r1: "interpolateKeyframes QuatLerp exChannel (- 1) = Inr [0, 0, 0]"
    using T a np by (simp add: exChannel_def componentCount_def)
  have r0: "interpolateKeyframes QuatLerp exChannel 0 = Inr [0, 0, 0]"
    using T0 a0 np by (simp add: exChannel_def componentCount_def)
  have r2: "interpolateKeyframes QuatLerp exChannel 1 = Inr [10, 0, 0]"
    using T b by (simp add: exChannel_def componentCount_def)
  have "interpolateKeyframes QuatLerp exChannel (1 / 2)
      = Inr (if Path exChannel = ''rotation''
             then (let qr = QuatLerp (quatAt (Values exChannel) (0 * 4))
                              (quatAt (Values exChannel) ((0 + 1) * 4))
                              (clamp01 ((1 / 2 - Timestamps exChannel ! 0)
                                 / (Timestamps exChannel ! (0 + 1) - Timestamps exChannel ! 0)))
                   in [fst (V qr), fst (snd (V qr)), snd (snd (V qr)), W qr])
             else map (\<lambda>i. Values exChannel ! (0 * 3 + i)
                             + (Values exChannel ! ((0 + 1) * 3 + i) - Values exChannel ! (0 * 3 + i))
                               * clamp01 ((1 / 2 - Timestamps exChannel ! 0)
                                   / (Timestamps exChannel ! (0 + 1) - Timestamps exChannel ! 0)))
                    [0..<3])"
    using T c by blast
  then have r3: "interpolateKeyframes QuatLerp exChannel (1 / 2) = Inr [5, 0, 0]"
    by (simp add: exChannel_def clamp01_def upt_rec)
  have g1: "Timestamps exRotChannel \<noteq> []" by (simp add: exRotChannel_def)
  have g2: "sorted_wrt (<) (Timestamps exRotChannel)" by (simp add: exRotChannel_def)
  have g3: "componentCount exRotChannel * length (Timestamps exRotChannel)
            \<le> length (Values exRotChannel)"
    by (simp add: exRotChannel_def componentCount_def)
  have p: "Path exRotChannel = ''rotation'' \<and> 1 < length (Timestamps exRotChannel)"
    by (simp add: exRotChannel_def)
  have z: "0 = Timestamps exRotChannel ! 0" by (simp add: exRotChannel_def)
  have q: "QuatLerp (quatAt (Values exRotChannel) 0) (quatAt (Values exRotChannel) 4) 0
       = quatAt (Values exRotChannel) 0"
    by (simp add: QuatLerp_def quatAt_def)
  have e: "last (Timestamps exRotChannel) \<le> 2" by (simp add: exRotChannel_def)
  note R = C8_interpolation[OF g1 g2 g3, where slerp = QuatLerp and tb = 0 and ta = 2]
  note R1 = C8_interpolation[OF g1 g2 g3, where slerp = QuatLerp and tb = "- 1"]
  from R z q have "interpolateKeyframes QuatLerp exRotChannel 0
      = Inr (take (componentCount exRotChannel) (Values exRotChannel))" by simp
  then have s0: "interpolateKeyframes QuatLerp exRotChannel 0 = Inr [0, 0, 0, 1]"
    by (simp add: exRotChannel_def componentCount_def)
  have "- 1 \<le> Timestamps exRotChannel ! 0" "- 1 \<noteq> Timestamps exRotChannel ! 0"
    by (simp_all add: exRotChannel_def)
  with R1 have "interpolateKeyframes QuatLerp exRotChannel (- 1)
      = Inr (take (componentCount exRotChannel) (Values exRotChannel))" by simp
  then have s1: "interpolateKeyframes QuatLerp exRotChannel (- 1) = Inr [0, 0, 0, 1]"
    by (simp add: exRotChannel_def componentCount_def)
  from R e have "interpolateKeyframes QuatLerp exRotChannel 2
      = Inr (take (componentCount exRotChannel)
               (drop ((length (Timestamps exRotChannel) - 1) * componentCount exRotChannel)
                  (Values exRotChannel)))" by blast
  then have s2: "interpolateKeyframes QuatLerp exRotChannel 2 = Inr [0, 1, 0, 0]"
    by (simp add: exRotChannel_def componentCount_def)
  from h1 h2 h3 a r1 a0 r0 b r2 c r3 g1 g2 g3 p z q s0 s1 e s2 show ?thesis by blast
qed

text \<open>
  C8 as stated asks only for timestamps that are not empty and strictly increasing. When
  the value buffer is shorter than the timestamps need, the guards of
  \<open>interpolateKeyframes\<close> decide: \<open>exShort\<close> has the timestamps \<open>[0, 1]\<close> and one
  sample, and at \<open>t = 1\<close>, at the last timestamp, the result is \<open>nil\<close>, not a sample;
  \<open>exNoValues\<close> has the same timestamps and no values, and at \<open>t = 1/2\<close>, between the
  timestamps, the slice expression \<open>channel.Values[0:3]\<close> panics.
\<close>

theorem C8_short_value_buffer_counterexample:
  "Timestamps exShort = [0, 1] \<and> sorted_wrt (<) (Timestamps exShort)
   \<and> last (Timestamps exShort) \<le> 1
   \<and> interpolateKeyframes QuatLerp exShort 1 = Inr []
   \<and> Timestamps exNoValues = [0, 1]
   \<and> interpolateKeyframes QuatLerp exNoValues (1 / 2) = Inl SliceBoundsOutOfRange"
  by (simp add: exShort_def exNoValues_def interpolateKeyframes_def componentCount_def Search_def
      SearchLoop.simps Let_def slice_def)


subsection \<open>C6: the global transform is the product along the parent chain\<close>

text \<open>
  C6: for a node \<open>i\<close> with the parent chain \<open>j0, ..., i\<close> (\<open>j0\<close> the root ancestor,
  \<open>d + 1\<close> nodes for a chain of length \<open>d\<close>), \<open>getGlobalNodeTransform\<close> returns the
  product of the local matrices of the chain in that order, multiplied from the left
  (the root's matrix first), and the local matrix of each node of the chain is
  \<open>translate(T) \<cdot> rotate(R) \<cdot> scale(S)\<close> of its current transform.
\<close>

theorem C6_global_transform:
  assumes "parentChain r i (j0 # rest)"
  shows "getGlobalNodeTransform r i
           = Some (Inr (foldl Mul4 (getNodeTransformMatrix r j0)
                          (map (getNodeTransformMatrix r) rest)))
     \<and> last (j0 # rest) = i
     \<and> NodeParents r ! nat j0 < 0
     \<and> (\<forall>j \<in> set (j0 # rest).
           getNodeTransformMatrix r j
           = Mul4 (Mul4 (Translate3D (fst (Translation (NodeTransforms r ! nat j)))
                           (fst (snd (Translation (NodeTransforms r ! nat j))))
                           (snd (snd (Translation (NodeTransforms r ! nat j)))))
                        (QuatMat4 (Rotation (NodeTransforms r ! nat j))))
                  (Scale3D (fst (Scale (NodeTransforms r ! nat j)))
                     (fst (snd (Scale (NodeTransforms r ! nat j))))
                     (snd (snd (Scale (NodeTransforms r ! nat j))))))"
proof -
  have 1: "getGlobalNodeTransform r i
           = Some (Inr (foldl Mul4 (getNodeTransformMatrix r j0)
                          (map (getNodeTransformMatrix r) rest)))"
    using getGlobal_chain[OF assms] by simp
  have 2: "last (j0 # rest) = i" using parentChain_nonempty[OF assms] by simp
  have 3: "NodeParents r ! nat j0 < 0" using parentChain_root[OF assms] by simp
  have 4: "\<forall>j \<in> set (j0 # rest).
           getNodeTransformMatrix r j
           = Mul4 (Mul4 (Translate3D (fst (Translation (NodeTransforms r ! nat j)))
                           (fst (snd (Translation (NodeTransforms r ! nat j))))
                           (snd (snd (Translation (NodeTransforms r ! nat j)))))
                        (QuatMat4 (Rotation (NodeTransforms r ! nat j))))
                  (Scale3D (fst (Scale (NodeTransforms r ! nat j)))
                     (fst (snd (Scale (NodeTransforms r ! nat j))))
                     (snd (snd (Scale (NodeTransforms r ! nat j)))))"
  proof
    fix j assume "j \<in> set (j0 # rest)"
    with parentChain_valid[OF assms] have "0 \<le> j \<and> j < int (length (NodeTransforms r))" by blast
    then show "getNodeTransformMatrix r j
           = Mul4 (Mul4 (Translate3D (fst (Translation (NodeTransforms r ! nat j)))
                           (fst (snd (Translation (NodeTransforms r ! nat j))))
                           (snd (snd (Translation (NodeTransforms r ! nat j)))))
                        (QuatMat4 (Rotation (NodeTransforms r ! nat j))))
                  (Scale3D (fst (Scale (NodeTransforms r ! nat j)))
                     (fst (snd (Scale (NodeTransforms r ! nat j))))
                     (snd (snd (Scale (NodeTransforms r ! nat j)))))"
      by (simp add: getNodeTransformMatrix_def Let_def)
  qed
  from 1 2 3 4 show ?thesis by blast
qed


theorem C6_global_transform_witness:
  "parentChain exRig 1 (0 # [1])
   \<and> getGlobalNodeTransform exRig 1 = Some (Inr exRigGlobal1)
   \<and> exRigGlobal1 = Mul4 (getNodeTransformMatrix exRig 0) (getNodeTransformMatrix exRig 1)
   \<and> exRigGlobal1 \<noteq> Mul4 (getNodeTransformMatrix exRig 1) (getNodeTransformMatrix exRig 0)"
proof -
  have c: "parentChain exRig 1 (0 # [1])" using exRig_chain1 by simp
  have "getGlobalNodeTransform exRig 1
        = Some (Inr (foldl Mul4 (getNodeTransformMatrix exRig 0)
                       (map (getNodeTransformMatrix exRig) [1])))"
    using C6_global_transform[OF c] by blast
  then have g: "getGlobalNodeTransform exRig 1 = Some (Inr exRigGlobal1)"
    by (simp add: exRig_local0 exRig_local1 exRig_product)
  have p: "exRigGlobal1 = Mul4 (getNodeTransformMatrix exRig 0) (getNodeTransformMatrix exRig 1)"
    by (simp add: exRig_local0 exRig_local1 exRig_product)
  have q: "exRigGlobal1 \<noteq> Mul4 (getNodeTransformMatrix exRig 1) (getNodeTransformMatrix exRig 0)"
    by (simp add: exRig_local0 exRig_local1 exRigGlobal0_def exRigGlobal1_def mat_defs)
  from c g p q show ?thesis by blast
qed

subsection \<open>C7: bone matrices\<close>

text \<open>
  C7: for a skin of the renderer with one inverse-bind matrix per joint whose joints all
  have a global transform \<open>G i\<close>, \<open>computeBoneMatrices\<close> returns, changes nothing but
  \<open>BoneMatrices\<close>, and sets \<open>BoneMatrices[i]\<close> to
  \<open>G i \<cdot> InverseBindMatrices[i]\<close> for every joint \<open>i\<close>; where the inverse-bind matrix
  is the identity this is \<open>G i\<close> itself.
\<close>

theorem C7_bone_matrices:
  assumes "0 \<le> k" and "k < int (length (Skins r))"
    and "length (InverseBindMatrices (Skins r ! nat k)) = length (Joints (Skins r ! nat k))"
    and "\<forall>i < length (Joints (Skins r ! nat k)).
           getGlobalNodeTransform r (Joints (Skins r ! nat k) ! i) = Some (Inr (G i))"
  shows "\<exists>r'. computeBoneMatrices r k = Some (Inr r')
           \<and> r' = r\<lparr>BoneMatrices := BoneMatrices r'\<rparr>
           \<and> length (Joints (Skins r ! nat k)) \<le> length (BoneMatrices r')
           \<and> (\<forall>i < length (Joints (Skins r ! nat k)).
                 BoneMatrices r' ! i = Mul4 (G i) (InverseBindMatrices (Skins r ! nat k) ! i)
               \<and> (InverseBindMatrices (Skins r ! nat k) ! i = Ident4 \<longrightarrow> BoneMatrices r' ! i = G i))"
proof -
  define skin where "skin = Skins r ! nat k"
  define bm where "bm = (if length (BoneMatrices r) < length (Joints skin)
                 then replicate (length (Joints skin)) zeroMat4 else BoneMatrices r)"
  define bm' where "bm' = fold (\<lambda>i b. b[i := Mul4 (G i) (InverseBindMatrices skin ! i)])
                [0..<length (Joints skin)] bm"
  have ibm: "length (Joints (Skins r ! nat k)) \<le> length (InverseBindMatrices (Skins r ! nat k))"
    using assms(3) by simp
  have c: "computeBoneMatrices r k = Some (Inr (r\<lparr>BoneMatrices := bm'\<rparr>))"
    using computeBoneMatrices_ok[OF assms(1,2) ibm assms(4)] by (simp add: bm'_def bm_def skin_def)
  have lb: "length (Joints skin) \<le> length bm" by (simp add: bm_def)
  have lb': "length bm' = length bm" by (simp add: bm'_def fold_update_length)
  have n: "\<forall>i < length (Joints skin). bm' ! i = Mul4 (G i) (InverseBindMatrices skin ! i)"
    using lb by (simp add: bm'_def fold_update_nth)
  have "computeBoneMatrices r k = Some (Inr (r\<lparr>BoneMatrices := bm'\<rparr>))
           \<and> r\<lparr>BoneMatrices := bm'\<rparr> = r\<lparr>BoneMatrices := BoneMatrices (r\<lparr>BoneMatrices := bm'\<rparr>)\<rparr>
           \<and> length (Joints (Skins r ! nat k)) \<le> length (BoneMatrices (r\<lparr>BoneMatrices := bm'\<rparr>))
           \<and> (\<forall>i < length (Joints (Skins r ! nat k)).
                 BoneMatrices (r\<lparr>BoneMatrices := bm'\<rparr>) ! i
                   = Mul4 (G i) (InverseBindMatrices (Skins r ! nat k) ! i)
               \<and> (InverseBindMatrices (Skins r ! nat k) ! i = Ident4
                    \<longrightarrow> BoneMatrices (r\<lparr>BoneMatrices := bm'\<rparr>) ! i = G i))"
    using c lb lb' n by (simp add: skin_def Mul4_Ident4_right)
  then show ?thesis by blast
qed

theorem C7_bone_matrices_witness:
  "0 < int (length (Skins exRig))
   \<and> length (InverseBindMatrices (Skins exRig ! nat 0)) = length (Joints (Skins exRig ! nat 0))
   \<and> getGlobalNodeTransform exRig (Joints (Skins exRig ! nat 0) ! 0) = Some (Inr exRigGlobal0)
   \<and> getGlobalNodeTransform exRig (Joints (Skins exRig ! nat 0) ! 1) = Some (Inr exRigGlobal1)
   \<and> InverseBindMatrices (Skins exRig ! nat 0) = [Ident4, Ident4]
   \<and> (\<exists>r'. computeBoneMatrices exRig 0 = Some (Inr r')
          \<and> BoneMatrices r' ! 0 = exRigGlobal0 \<and> BoneMatrices r' ! 1 = exRigGlobal1)"
proof -
  have a: "(0::int) \<le> 0" by simp
  have b: "0 < int (length (Skins exRig))" by (simp add: exRig_def)
  have c: "length (InverseBindMatrices (Skins exRig ! nat 0)) = length (Joints (Skins exRig ! nat 0))"
    by (simp add: exRig_def)
  have j: "Joints (Skins exRig ! nat 0) = [0, 1]" by (simp add: exRig_def)
  have i: "InverseBindMatrices (Skins exRig ! nat 0) = [Ident4, Ident4]" by (simp add: exRig_def)
  have g0: "getGlobalNodeTransform exRig (Joints (Skins exRig ! nat 0) ! 0) = Some (Inr exRigGlobal0)"
    unfolding j using exRig_global0 by simp
  have g1: "getGlobalNodeTransform exRig (Joints (Skins exRig ! nat 0) ! 1) = Some (Inr exRigGlobal1)"
    unfolding j using exRig_global1 by simp
  have d: "\<forall>i < length (Joints (Skins exRig ! nat 0)).
             getGlobalNodeTransform exRig (Joints (Skins exRig ! nat 0) ! i)
             = Some (Inr ([exRigGlobal0, exRigGlobal1] ! i))"
  proof (intro allI impI)
    fix i assume "i < length (Joints (Skins exRig ! nat 0))"
    then have "i < 2" unfolding j by simp
    then have "i = 0 \<or> i = 1" by auto
    then show "getGlobalNodeTransform exRig (Joints (Skins exRig ! nat 0) ! i)
             = Some (Inr ([exRigGlobal0, exRigGlobal1] ! i))"
      using g0 g1 by auto
  qed
  from C7_bone_matrices[OF a b c d] obtain r' where
    r: "computeBoneMatrices exRig 0 = Some (Inr r')"
    and n: "\<forall>i < length (Joints (Skins exRig ! nat 0)).
              InverseBindMatrices (Skins exRig ! nat 0) ! i = Ident4
              \<longrightarrow> BoneMatrices r' ! i = [exRigGlobal0, exRigGlobal1] ! i"
    by blast
  have j': "Joints (Skins exRig ! 0) = [0, 1]"
    and i': "InverseBindMatrices (Skins exRig ! 0) = [Ident4, Ident4]"
    by (simp_all add: exRig_def)
  from n have "BoneMatrices r' ! 0 = exRigGlobal0" "BoneMatrices r' ! 1 = exRigGlobal1"
    by (simp_all add: j' i')
  with r b c g0 g1 i show ?thesis by blast
qed


subsection \<open>C4: cycles of parents\<close>

text \<open>
  C4, as the code has it: \<open>getGlobalNodeTransform\<close> returns exactly for the nodes
  whose chain of parents ends (at a root, or outside the nodes); for a node with a parent
  chain it returns a matrix; for a node that is its own ancestor it does not return.
  \<open>LoadGLB\<close> checks no cycle: after a load the parent recorded for a node is \<open>-1\<close>
  or a node that lists it as a child, \<open>NodeParents\<close> is as long as \<open>NodeTransforms\<close>,
  and a call of \<open>getGlobalNodeTransform\<close> that returns does not panic.
\<close>

theorem C4_global_transform_returns:
  "(getGlobalNodeTransform r i \<noteq> None) = chainEnds r i
   \<and> (parentChain r i xs \<longrightarrow> (\<exists>m. getGlobalNodeTransform r i = Some (Inr m)))
   \<and> (ancestor rc j j \<longrightarrow> getGlobalNodeTransform rc j = None)
   \<and> (LoadGLB r0 (Some doc) = Inr r1 \<longrightarrow>
         length (NodeParents r1) = length (NodeTransforms r1)
       \<and> (\<forall>c < length (NodeParents r1).
             NodeParents r1 ! c = - 1
           \<or> (0 \<le> NodeParents r1 ! c \<and> NodeParents r1 ! c < int (length (NodeTransforms r1))
               \<and> int c \<in> set (node_Children (doc_Nodes doc ! nat (NodeParents r1 ! c)))))
       \<and> (\<forall>n y. getGlobalNodeTransform r1 n = Some y \<longrightarrow> \<not> isl y))"
proof -
  have 1: "(getGlobalNodeTransform r i \<noteq> None) = chainEnds r i"
    by (rule returns_iff_chainEnds)
  have 2: "parentChain r i xs \<longrightarrow> (\<exists>m. getGlobalNodeTransform r i = Some (Inr m))"
    using getGlobal_chain[of r i xs] by blast
  have 3: "ancestor rc j j \<longrightarrow> getGlobalNodeTransform rc j = None"
    using cycle_diverges[of rc j] by blast
  have 4: "LoadGLB r0 (Some doc) = Inr r1 \<longrightarrow>
         length (NodeParents r1) = length (NodeTransforms r1)
       \<and> (\<forall>c < length (NodeParents r1).
             NodeParents r1 ! c = - 1
           \<or> (0 \<le> NodeParents r1 ! c \<and> NodeParents r1 ! c < int (length (NodeTransforms r1))
               \<and> int c \<in> set (node_Children (doc_Nodes doc ! nat (NodeParents r1 ! c)))))
       \<and> (\<forall>n y. getGlobalNodeTransform r1 n = Some y \<longrightarrow> \<not> isl y)"
  proof
    assume l: "LoadGLB r0 (Some doc) = Inr r1"
    note L = LoadGLB_Inr[OF l]
    from L have b: "buildNodeParents doc = Inr (NodeParents r1)" by simp
    note B = buildNodeParents_Inr[OF b]
    have nt: "length (NodeTransforms r1) = length (doc_Nodes doc)" using L by simp
    have a: "length (NodeParents r1) = length (NodeTransforms r1)" using B nt by simp
    have c: "\<forall>c < length (NodeParents r1).
             NodeParents r1 ! c = - 1
           \<or> (0 \<le> NodeParents r1 ! c \<and> NodeParents r1 ! c < int (length (NodeTransforms r1))
               \<and> int c \<in> set (node_Children (doc_Nodes doc ! nat (NodeParents r1 ! c))))"
      using B nt by simp
    have d: "\<forall>n y. getGlobalNodeTransform r1 n = Some y \<longrightarrow> \<not> isl y"
      using getGlobal_no_panic[of r1] a by simp
    from a c d show "length (NodeParents r1) = length (NodeTransforms r1)
       \<and> (\<forall>c < length (NodeParents r1).
             NodeParents r1 ! c = - 1
           \<or> (0 \<le> NodeParents r1 ! c \<and> NodeParents r1 ! c < int (length (NodeTransforms r1))
               \<and> int c \<in> set (node_Children (doc_Nodes doc ! nat (NodeParents r1 ! c)))))
       \<and> (\<forall>n y. getGlobalNodeTransform r1 n = Some y \<longrightarrow> \<not> isl y)" by blast
  qed
  from 1 2 3 4 show ?thesis by blast
qed

theorem C4_global_transform_returns_witness:
  "parentChain exRig 1 [0, 1]
   \<and> (\<exists>m. getGlobalNodeTransform exRig 1 = Some (Inr m))
   \<and> chainEnds exRig 1
   \<and> LoadGLB exEmpty (Some exCyclicDoc) = Inr exCyclicLoaded
   \<and> ancestor exCyclicLoaded 0 0
   \<and> getGlobalNodeTransform exCyclicLoaded 0 = None
   \<and> length (NodeParents exCyclicLoaded) = length (NodeTransforms exCyclicLoaded)
   \<and> NodeParents exCyclicLoaded ! 0 = 0
   \<and> int 0 \<in> set (node_Children (doc_Nodes exCyclicDoc ! nat (NodeParents exCyclicLoaded ! 0)))"
proof -
  note T = C4_global_transform_returns[of exRig 1 "[0, 1]" exCyclicLoaded 0 exEmpty exCyclicDoc
      exCyclicLoaded]
  have c: "parentChain exRig 1 [0, 1]" using exRig_chain1 by simp
  have a: "ancestor exCyclicLoaded 0 0" by (rule exCyclic_ancestor)
  have l: "LoadGLB exEmpty (Some exCyclicDoc) = Inr exCyclicLoaded" by (rule exCyclic_load)
  from T c have r: "\<exists>m. getGlobalNodeTransform exRig 1 = Some (Inr m)" by blast
  with T have e: "chainEnds exRig 1" by auto
  from T a have n: "getGlobalNodeTransform exCyclicLoaded 0 = None" by blast
  from T l have len: "length (NodeParents exCyclicLoaded) = length (NodeTransforms exCyclicLoaded)"
    by blast
  have p: "NodeParents exCyclicLoaded ! 0 = 0" by (simp add: exCyclicLoaded_def exEmpty_def NewGLBRenderer_def)
  have k: "int 0 \<in> set (node_Children (doc_Nodes exCyclicDoc ! nat (NodeParents exCyclicLoaded ! 0)))"
    by (simp add: exCyclicLoaded_def exEmpty_def NewGLBRenderer_def exCyclicDoc_def)
  from c r e l a n len p k show ?thesis by blast
qed

text \<open>
  C4 as stated fails: the document whose node 0 lists itself as a child loads without an
  error, node 0 is recorded as its own parent, and the global transform of node 0 is
  never returned.
\<close>

theorem C4_cycle_not_reported_counterexample:
  "node_Children (doc_Nodes exCyclicDoc ! 0) = [0]
   \<and> LoadGLB exEmpty (Some exCyclicDoc) = Inr exCyclicLoaded
   \<and> NodeParents exCyclicLoaded = [0]
   \<and> getGlobalNodeTransform exCyclicLoaded 0 = None"
proof -
  have "node_Children (doc_Nodes exCyclicDoc ! 0) = [0]" by (simp add: exCyclicDoc_def)
  moreover have "NodeParents exCyclicLoaded = [0]" by (simp add: exCyclicLoaded_def exEmpty_def NewGLBRenderer_def)
  moreover have "getGlobalNodeTransform exCyclicLoaded 0 = None"
    using cycle_diverges[OF exCyclic_ancestor] .
  ultimately show ?thesis using exCyclic_load by blast
qed


subsection \<open>C3: skins with more than 128 joints\<close>




subsection \<open>C5: the row stride of the texture\<close>

text \<open>
  C5 asks that \<open>UpdateTexture\<close> reads each row of the pixels at the caller's stride.
  \<open>UpdateTexture\<close> never uses its \<open>stride\<close> argument: the renderer and the OpenGL
  calls are the same for every stride. For two rows of two pixels with a stride of 12
  bytes, the upload reads row 1 at byte 8 (the padding of row 0 and the first pixel of
  row 1), while row 1 of the buffer starts at byte 12.
\<close>

theorem C5_stride_ignored:
  "UpdateTexture r buffer width height stride = UpdateTexture r buffer width height stride'
   \<and> UpdateTexture exEmpty exPixels 2 2 12
       = (exEmpty\<lparr>TextureWidth := 2, TextureHeight := 2\<rparr>,
          [BindTexture, TexImage2D 2 2, TexSubImage2D 2 2 exPixels])
   \<and> uploadedRow (TexSubImage2D 2 2 exPixels) 1 = [0, 0, 0, 0, 3, 3, 3, 3]
   \<and> strideRow exPixels 2 12 1 = [3, 3, 3, 3, 4, 4, 4, 4]"
  by (simp add: UpdateTexture_def exEmpty_def NewGLBRenderer_def exPixels_def strideRow_def)

theorem C5_stride_ignored_witness:
  "UpdateTexture exEmpty exPixels 2 2 12 = UpdateTexture exEmpty exPixels 2 2 8
   \<and> snd (UpdateTexture exEmpty exPixels 2 2 12)
       = [BindTexture, TexImage2D 2 2, TexSubImage2D 2 2 exPixels]
   \<and> uploadedRow (snd (UpdateTexture exEmpty exPixels 2 2 12) ! 2) 1 \<noteq> strideRow exPixels 2 12 1"
proof -
  note T = C5_stride_ignored[of exEmpty exPixels 2 2 12 8]
  have a: "UpdateTexture exEmpty exPixels 2 2 12 = UpdateTexture exEmpty exPixels 2 2 8"
    using T by (rule conjunct1)
  have u: "UpdateTexture exEmpty exPixels 2 2 12
       = (exEmpty\<lparr>TextureWidth := 2, TextureHeight := 2\<rparr>,
          [BindTexture, TexImage2D 2 2, TexSubImage2D 2 2 exPixels])"
    using T[THEN conjunct2] by (rule conjunct1)
  have b: "snd (UpdateTexture exEmpty exPixels 2 2 12)
       = [BindTexture, TexImage2D 2 2, TexSubImage2D 2 2 exPixels]"
    unfolding u by simp
  have r1: "uploadedRow (TexSubImage2D 2 2 exPixels) 1 = [0, 0, 0, 0, 3, 3, 3, 3]"
    using T[THEN conjunct2, THEN conjunct2] by (rule conjunct1)
  have r2: "strideRow exPixels 2 12 1 = [3, 3, 3, 3, 4, 4, 4, 4]"
    using T[THEN conjunct2, THEN conjunct2] by (rule conjunct2)
  have c: "uploadedRow (snd (UpdateTexture exEmpty exPixels 2 2 12) ! 2) 1
      \<noteq> strideRow exPixels 2 12 1"
    unfolding b r2 using r1 by simp
  from a b c show ?thesis by blast
qed

end
